theory Spec2Isabelle
  imports Complex_Main
begin

section \<open>The hero canvas animation of script.js\<close>

text \<open>
  The animation engine is the immediately invoked function at the end of script.js.
  Its mutable variables (the surface size \<open>W\<close>, \<open>H\<close>, the three pools and the clock
  \<open>sceneIndex\<close>, \<open>sceneTime\<close>, \<open>animT\<close>) live in one closure; here they are the fields
  of a record that every function takes and returns.

  Numbers: the counters \<open>sceneIndex\<close>, \<open>sceneTime\<close>, \<open>animT\<close> and \<open>life\<close> only ever hold
  natural numbers (they start at 0 and are changed by \<open>++\<close>, by assignment of 0 and by
  \<open>% 5\<close>), so they are \<open>nat\<close>. Every other JavaScript number is a \<open>real\<close>: the
  arithmetic of the model is exact, where the browser rounds to a double.
  \<open>Math.random()\<close> is a draw from a sequence the model is given.
\<close>

subsection \<open>Math.random\<close>

record rng =
  draws :: "nat \<Rightarrow> real"
  cursor :: nat

definition Math_random :: "rng \<Rightarrow> real \<times> rng" where
  "Math_random r = (draws r (cursor r), r\<lparr>cursor := Suc (cursor r)\<rparr>)"

text \<open>The contract of \<open>Math.random\<close>: every draw lies in \<open>[0, 1)\<close>.\<close>

definition unit_draws :: "rng \<Rightarrow> bool" where
  "unit_draws r = (\<forall>n. 0 \<le> draws r n \<and> draws r n < 1)"

text \<open>A sample generator: the draws cycle through 0.1, 0.2, ..., 0.8.\<close>

definition sample_rng :: rng where
  "sample_rng = \<lparr>draws = (\<lambda>n. real (Suc (n mod 8)) / 10), cursor = 0\<rparr>"

text \<open>
  \<open>Array.from({ length: n }, f)\<close> calls \<open>f\<close> for the indices 0, 1, ... in turn;
  \<open>xs.forEach(f)\<close> visits the elements in order. Both thread the generator.
\<close>

primrec Array_from :: "nat \<Rightarrow> (rng \<Rightarrow> 'a \<times> rng) \<Rightarrow> rng \<Rightarrow> 'a list \<times> rng" where
  "Array_from 0 f r = ([], r)"
| "Array_from (Suc n) f r =
     (let (a, r1) = f r; (as, r2) = Array_from n f r1 in (a # as, r2))"

primrec forEach :: "('a \<Rightarrow> rng \<Rightarrow> 'a \<times> rng) \<Rightarrow> 'a list \<Rightarrow> rng \<Rightarrow> 'a list \<times> rng" where
  "forEach f [] r = ([], r)"
| "forEach f (a # as) r =
     (let (a', r1) = f a r; (as', r2) = forEach f as r1 in (a' # as', r2))"

subsection \<open>Particles\<close>

record Particle =
  p_x :: real
  p_y :: real
  p_vx :: real
  p_vy :: real
  p_size :: real
  p_alpha :: real
  p_gold :: bool
  p_life :: nat
  p_maxLife :: real

text \<open>
  \<open>Particle.reset\<close> assigns every field, so its result does not depend on the old
  particle; \<open>w\<close> and \<open>h\<close> are the closure's \<open>W\<close> and \<open>H\<close> at the time of the call.
\<close>

definition Particle_reset :: "real \<Rightarrow> real \<Rightarrow> rng \<Rightarrow> Particle \<times> rng" where
  "Particle_reset w h r0 =
     (let (u1, r1) = Math_random r0;
          (u2, r2) = Math_random r1;
          (u3, r3) = Math_random r2;
          (u4, r4) = Math_random r3;
          (u5, r5) = Math_random r4;
          (u6, r6) = Math_random r5;
          (u7, r7) = Math_random r6;
          (u8, r8) = Math_random r7
      in (\<lparr>p_x = u1 * w,
           p_y = u2 * h,
           p_vx = (u3 - 0.5) * 0.4,
           p_vy = - u4 * 0.6 - 0.1,
           p_size = u5 * 2.5 + 0.3,
           p_alpha = u6 * 0.7 + 0.1,
           p_gold = (u7 > 0.6),
           p_life = 0,
           p_maxLife = 200 + u8 * 300\<rparr>, r8))"

definition Particle_update :: "real \<Rightarrow> real \<Rightarrow> Particle \<Rightarrow> rng \<Rightarrow> Particle \<times> rng" where
  "Particle_update w h p r =
     (let p1 = p\<lparr>p_x := p_x p + p_vx p, p_y := p_y p + p_vy p, p_life := Suc (p_life p)\<rparr>
      in if real (p_life p1) > p_maxLife p1 \<or> p_y p1 < - 10
         then Particle_reset w h r
         else (p1, r))"

text \<open>
  A run of several calls depends on how the two sums of \<open>update\<close> are rounded, so for
  runs the addition is left open: \<open>add\<close> is the sum the engine computes, the exact sum
  of two reals or the rounded sum of two doubles. The age is a counter and the two
  comparisons are exact either way. With the exact sum this is \<open>Particle_update\<close>.
\<close>

definition Particle_update_by ::
  "(real \<Rightarrow> real \<Rightarrow> real) \<Rightarrow> real \<Rightarrow> real \<Rightarrow> Particle \<Rightarrow> rng \<Rightarrow> Particle \<times> rng" where
  "Particle_update_by add w h p r =
     (let p1 = p\<lparr>p_x := add (p_x p) (p_vx p), p_y := add (p_y p) (p_vy p),
                 p_life := Suc (p_life p)\<rparr>
      in if real (p_life p1) > p_maxLife p1 \<or> p_y p1 < - 10
         then Particle_reset w h r
         else (p1, r))"

text \<open>\<open>k\<close> calls of \<open>update\<close> on one particle, the surface size being \<open>w\<close>, \<open>h\<close> throughout.\<close>

primrec Particle_updates ::
  "(real \<Rightarrow> real \<Rightarrow> real) \<Rightarrow> nat \<Rightarrow> real \<Rightarrow> real \<Rightarrow> Particle \<times> rng \<Rightarrow> Particle \<times> rng" where
  "Particle_updates add 0 w h pr = pr"
| "Particle_updates add (Suc k) w h pr =
     (let (p, r) = Particle_updates add k w h pr in Particle_update_by add w h p r)"

subsection \<open>Gold streaks\<close>

datatype colour = GOLD | LGOLD

record GoldLine =
  g_x :: real
  g_y :: real
  g_targetX :: real
  g_targetY :: real
  g_progress :: real
  g_speed :: real
  g_alpha :: real
  g_width :: real
  g_color :: colour
  g_trail :: "(real \<times> real) list"

definition GoldLine_reset :: "real \<Rightarrow> real \<Rightarrow> rng \<Rightarrow> GoldLine \<times> rng" where
  "GoldLine_reset w h r0 =
     (let (u1, r1) = Math_random r0;
          (u2, r2) = Math_random r1;
          (u3, r3) = Math_random r2;
          (u4, r4) = Math_random r3;
          (u5, r5) = Math_random r4;
          (u6, r6) = Math_random r5
      in (\<lparr>g_x = u1 * w,
           g_y = h + 50,
           g_targetX = u1 * w + (u2 - 0.5) * 300,
           g_targetY = - 50,
           g_progress = 0,
           g_speed = 0.002 + u3 * 0.003,
           g_alpha = u4 * 0.35 + 0.08,
           g_width = u5 * 1.5 + 0.3,
           g_color = (if u6 > 0.5 then GOLD else LGOLD),
           g_trail = []\<rparr>, r6))"

text \<open>
  \<open>trail.push\<close> appends at the end, \<open>trail.shift()\<close> removes the first element, which
  is the oldest point.
\<close>

definition GoldLine_update :: "real \<Rightarrow> real \<Rightarrow> GoldLine \<Rightarrow> rng \<Rightarrow> GoldLine \<times> rng" where
  "GoldLine_update w h g r =
     (let progress = g_progress g + g_speed g;
          cx = g_x g + (g_targetX g - g_x g) * progress;
          cy = g_y g + (g_targetY g - g_y g) * progress;
          pushed = g_trail g @ [(cx, cy)];
          trail = (if length pushed > 60 then tl pushed else pushed)
      in if progress \<ge> 1
         then GoldLine_reset w h r
         else (g\<lparr>g_progress := progress, g_trail := trail\<rparr>, r))"

text \<open>
  The pool's initialiser: \<open>const g = new GoldLine(); g.progress = Math.random(); return g\<close>.
\<close>

definition GoldLine_init :: "real \<Rightarrow> real \<Rightarrow> rng \<Rightarrow> GoldLine \<times> rng" where
  "GoldLine_init w h r0 =
     (let (g, r1) = GoldLine_reset w h r0;
          (u, r2) = Math_random r1
      in (g\<lparr>g_progress := u\<rparr>, r2))"

text \<open>
  A sequence of \<open>update\<close> calls on one streak; the list gives the surface size in force
  at each call (a resize may come between two frames).
\<close>

primrec GoldLine_updates :: "(real \<times> real) list \<Rightarrow> GoldLine \<times> rng \<Rightarrow> GoldLine \<times> rng" where
  "GoldLine_updates [] gr = gr"
| "GoldLine_updates (wh # whs) gr =
     GoldLine_updates whs (GoldLine_update (fst wh) (snd wh) (fst gr) (snd gr))"

subsection \<open>Geometric shapes\<close>

text \<open>\<open>xs[i]\<close> is \<open>undefined\<close> outside the array: \<open>None\<close>.\<close>

definition js_index :: "'a list \<Rightarrow> int \<Rightarrow> 'a option" where
  "js_index xs i = (if 0 \<le> i \<and> nat i < length xs then Some (xs ! nat i) else None)"

record GeomShape =
  s_x :: real
  s_y :: real
  s_size :: real
  s_rotation :: real
  s_rotSpeed :: real
  s_alpha :: real
  s_sides :: "nat option"
  s_vx :: real
  s_vy :: real
  s_gold :: bool

definition GeomShape_reset :: "real \<Rightarrow> real \<Rightarrow> rng \<Rightarrow> GeomShape \<times> rng" where
  "GeomShape_reset w h r0 =
     (let (u1, r1) = Math_random r0;
          (u2, r2) = Math_random r1;
          (u3, r3) = Math_random r2;
          (u4, r4) = Math_random r3;
          (u5, r5) = Math_random r4;
          (u6, r6) = Math_random r5;
          (u7, r7) = Math_random r6;
          (u8, r8) = Math_random r7;
          (u9, r9) = Math_random r8;
          (u10, r10) = Math_random r9
      in (\<lparr>s_x = u1 * w,
           s_y = u2 * h,
           s_size = 40 + u3 * 120,
           s_rotation = u4 * pi * 2,
           s_rotSpeed = (u5 - 0.5) * 0.003,
           s_alpha = 0.015 + u6 * 0.05,
           s_sides = js_index [3, 4, 6] \<lfloor>u7 * 3\<rfloor>,
           s_vx = (u8 - 0.5) * 0.15,
           s_vy = (u9 - 0.5) * 0.15,
           s_gold = (u10 > 0.4)\<rparr>, r10))"

definition GeomShape_update :: "real \<Rightarrow> real \<Rightarrow> GeomShape \<Rightarrow> rng \<Rightarrow> GeomShape \<times> rng" where
  "GeomShape_update w h s r =
     (let s1 = s\<lparr>s_x := s_x s + s_vx s, s_y := s_y s + s_vy s,
                 s_rotation := s_rotation s + s_rotSpeed s\<rparr>
      in if s_x s1 < - 200 \<or> s_x s1 > w + 200 \<or> s_y s1 < - 200 \<or> s_y s1 > h + 200
         then GeomShape_reset w h r
         else (s1, r))"

subsection \<open>The skyline and the network of the first scene\<close>

record building =
  b_x :: real
  b_w :: real
  b_h :: real
  floors :: nat

definition buildings :: "building list" where
  "buildings =
    [\<lparr>b_x = 0.05, b_w = 0.06, b_h = 0.45, floors = 12\<rparr>, \<lparr>b_x = 0.10, b_w = 0.04, b_h = 0.35, floors = 9\<rparr>,
     \<lparr>b_x = 0.13, b_w = 0.08, b_h = 0.55, floors = 15\<rparr>, \<lparr>b_x = 0.20, b_w = 0.05, b_h = 0.40, floors = 11\<rparr>,
     \<lparr>b_x = 0.24, b_w = 0.09, b_h = 0.65, floors = 18\<rparr>, \<lparr>b_x = 0.32, b_w = 0.04, b_h = 0.50, floors = 13\<rparr>,
     \<lparr>b_x = 0.35, b_w = 0.07, b_h = 0.72, floors = 20\<rparr>, \<lparr>b_x = 0.41, b_w = 0.05, b_h = 0.48, floors = 12\<rparr>,
     \<lparr>b_x = 0.45, b_w = 0.10, b_h = 0.80, floors = 22\<rparr>, \<lparr>b_x = 0.54, b_w = 0.04, b_h = 0.60, floors = 16\<rparr>,
     \<lparr>b_x = 0.57, b_w = 0.08, b_h = 0.68, floors = 18\<rparr>, \<lparr>b_x = 0.64, b_w = 0.05, b_h = 0.52, floors = 14\<rparr>,
     \<lparr>b_x = 0.68, b_w = 0.07, b_h = 0.70, floors = 19\<rparr>, \<lparr>b_x = 0.74, b_w = 0.04, b_h = 0.45, floors = 12\<rparr>,
     \<lparr>b_x = 0.77, b_w = 0.06, b_h = 0.55, floors = 15\<rparr>, \<lparr>b_x = 0.82, b_w = 0.09, b_h = 0.62, floors = 17\<rparr>,
     \<lparr>b_x = 0.90, b_w = 0.05, b_h = 0.50, floors = 13\<rparr>, \<lparr>b_x = 0.94, b_w = 0.07, b_h = 0.40, floors = 11\<rparr>]"

text \<open>The test of line 697: \<open>Math.sin(row * 3.7 + col * 2.1 + b.x * 10) > 0.1\<close>.\<close>

definition lit :: "real \<Rightarrow> nat \<Rightarrow> nat \<Rightarrow> bool" where
  "lit bx row col = (sin (real row * 3.7 + real col * 2.1 + bx * 10) > 0.1)"

text \<open>
  A window that \<open>drawSkyline\<close> fills: the rectangle passed to \<open>fillRect\<close>, tagged with the
  building's index in the array, the row and the column of the two loops.
\<close>

record window =
  win_building :: nat
  win_row :: nat
  win_col :: nat
  win_rect :: "real \<times> real \<times> real \<times> real"

definition wCols :: "real \<Rightarrow> building \<Rightarrow> nat" where
  "wCols w b = nat (max 1 \<lfloor>b_w b * w / 12\<rfloor>)"

definition building_windows :: "real \<Rightarrow> real \<Rightarrow> nat \<times> building \<Rightarrow> window list" where
  "building_windows w h ib =
     (let i = fst ib; b = snd ib;
          bx = b_x b * w; bw = b_w b * w; bh = b_h b * h * 0.6; by = h - bh;
          cols = wCols w b; wRows = floors b;
          ww = bw / real cols * 0.5; wh = bh / real wRows * 0.35
      in concat (map (\<lambda>row. concat (map (\<lambda>col.
           if lit (b_x b) row col
           then [\<lparr>win_building = i, win_row = row, win_col = col,
                  win_rect = (bx + real col * (bw / real cols) + (bw / real cols - ww) * 0.5,
                              by + real row * (bh / real wRows) + (bh / real wRows - wh) * 0.5 + 4,
                              ww, wh)\<rparr>]
           else []) [0..<cols])) [0..<wRows]))"

record skyline =
  sky_globalAlpha :: real
  sky_windows :: "window list"

definition drawSkyline :: "real \<Rightarrow> real \<Rightarrow> real \<Rightarrow> real \<Rightarrow> skyline" where
  "drawSkyline alpha t w h =
     \<lparr>sky_globalAlpha = alpha,
      sky_windows = concat (map (building_windows w h) (enumerate 0 buildings))\<rparr>"

definition hypot :: "real \<Rightarrow> real \<Rightarrow> real" where
  "hypot a b = sqrt (a\<^sup>2 + b\<^sup>2)"

definition network_nodes :: "real \<Rightarrow> real \<Rightarrow> real \<Rightarrow> (real \<times> real) list" where
  "network_nodes t w h =
     map (\<lambda>i. ((0.15 + 0.7 * real (i mod 4) / 3 + sin (t * 0.008 + real i) * 0.03) * w,
               (0.2 + 0.6 * real (i div 4) / 2 + cos (t * 0.006 + real i) * 0.03) * h))
         [0..<12]"

text \<open>
  An edge that \<open>drawNetwork\<close> strokes: the indices of its two nodes, the value given to
  \<open>ctx.globalAlpha\<close> and the two end points.
\<close>

record edge =
  e_i :: nat
  e_j :: nat
  e_globalAlpha :: real
  e_from :: "real \<times> real"
  e_to :: "real \<times> real"

definition edge_alpha :: "real \<Rightarrow> real \<Rightarrow> real \<Rightarrow> real" where
  "edge_alpha alpha w d = alpha * 0.15 * (1 - d / (w * 0.35))"

definition node_edges :: "real \<Rightarrow> real \<Rightarrow> (nat \<times> real \<times> real) list \<Rightarrow> nat \<times> real \<times> real \<Rightarrow> edge list" where
  "node_edges alpha w nodes n =
     concat (map (\<lambda>m.
       if fst m \<le> fst n then []
       else (let d = hypot (fst (snd n) - fst (snd m)) (snd (snd n) - snd (snd m))
             in if d < w * 0.35
                then [\<lparr>e_i = fst n, e_j = fst m, e_globalAlpha = edge_alpha alpha w d,
                       e_from = snd n, e_to = snd m\<rparr>]
                else [])) nodes)"

definition drawNetwork :: "real \<Rightarrow> real \<Rightarrow> real \<Rightarrow> real \<Rightarrow> edge list" where
  "drawNetwork alpha t w h =
     (let nodes = enumerate 0 (network_nodes t w h)
      in concat (map (node_edges alpha w nodes) nodes))"

subsection \<open>The page, the engine and the frame loop\<close>

datatype error = TypeError

record element =
  is_canvas :: bool
  offsetWidth :: nat
  offsetHeight :: nat

text \<open>What the script reads from the browser: the document and the window's size.\<close>

record host =
  document :: "string \<rightharpoonup> element"
  innerWidth :: nat
  innerHeight :: nat

text \<open>
  What the script changes outside its closure: the listeners registered on \<open>window\<close>,
  the number of calls of \<open>requestAnimationFrame\<close> made so far, and the generator.
\<close>

record page =
  listeners :: "string list"
  scheduled :: nat
  rnd :: rng

datatype scene = sceneVision | sceneLeadership | sceneCollaboration | sceneExcellence
  | sceneTransformation

definition scenes :: "scene list" where
  "scenes = [sceneVision, sceneLeadership, sceneCollaboration, sceneExcellence, sceneTransformation]"

definition SCENE_DURATION :: nat where
  "SCENE_DURATION = 420"

record engine = page +
  W :: real
  H :: real
  canvas_width :: nat
  canvas_height :: nat
  particles :: "Particle list"
  goldLines :: "GoldLine list"
  shapes :: "GeomShape list"
  sceneIndex :: nat
  sceneTime :: nat
  animT :: nat

definition resize :: "host \<Rightarrow> engine \<Rightarrow> engine" where
  "resize hst s =
     (let hero = document hst ''accueil'';
          cw = (case hero of Some el \<Rightarrow> offsetWidth el | None \<Rightarrow> innerWidth hst);
          ch = (case hero of Some el \<Rightarrow> offsetHeight el | None \<Rightarrow> innerHeight hst)
      in s\<lparr>W := real cw, canvas_width := cw, H := real ch, canvas_height := ch\<rparr>)"

text \<open>
  What one frame draws, as far as the clock and the surface decide it: the rectangle
  cleared, the value given to \<open>ctx.globalAlpha\<close> for the scene, the scene called and the
  time passed to it.
\<close>

record frame =
  f_clear :: "real \<times> real"
  f_sceneAlpha :: real
  f_scene :: scene
  f_t :: nat

text \<open>Lines 885 to 888 of \<open>loop\<close>, as a function of the updated \<open>sceneTime\<close>.\<close>

definition sceneAlpha :: "nat \<Rightarrow> real" where
  "sceneAlpha e =
     (let transProgress = real e / real SCENE_DURATION
      in if transProgress < 0.1 then transProgress / 0.1
         else if transProgress > 0.9 then (1 - transProgress) / 0.1
         else 1)"

text \<open>
  One call of \<open>loop\<close>. \<open>scenes[sceneIndex](animT)\<close> throws a TypeError when the index is
  outside the array, before the pools are updated and the next frame is requested.
\<close>

definition loop :: "engine \<Rightarrow> error + engine \<times> frame" where
  "loop s =
     (let animT1 = Suc (animT s);
          sceneTime1 = Suc (sceneTime s);
          wrap = (sceneTime1 \<ge> SCENE_DURATION);
          sceneTime2 = (if wrap then 0 else sceneTime1);
          sceneIndex2 = (if wrap then (sceneIndex s + 1) mod length scenes else sceneIndex s)
      in case js_index scenes (int sceneIndex2) of
           None \<Rightarrow> Inl TypeError
         | Some sc \<Rightarrow>
             (let fr = \<lparr>f_clear = (W s, H s), f_sceneAlpha = sceneAlpha sceneTime2,
                        f_scene = sc, f_t = animT1\<rparr>;
                  (ps, r1) = forEach (Particle_update (W s) (H s)) (particles s) (rnd s);
                  (gs, r2) = forEach (GoldLine_update (W s) (H s)) (goldLines s) r1;
                  (ss, r3) = forEach (GeomShape_update (W s) (H s)) (shapes s) r2
              in Inr (s\<lparr>animT := animT1, sceneTime := sceneTime2, sceneIndex := sceneIndex2,
                        particles := ps, goldLines := gs, shapes := ss, rnd := r3,
                        scheduled := Suc (scheduled s)\<rparr>, fr)))"

text \<open>\<open>n\<close> invocations of the frame callback, with no resize in between.\<close>

primrec callbacks :: "nat \<Rightarrow> engine \<Rightarrow> error + engine" where
  "callbacks 0 s = Inr s"
| "callbacks (Suc n) s =
     (case loop s of Inl e \<Rightarrow> Inl e | Inr sf \<Rightarrow> callbacks n (fst sf))"

text \<open>The frames drawn by these invocations, oldest first.\<close>

primrec frames :: "nat \<Rightarrow> engine \<Rightarrow> frame list" where
  "frames 0 s = []"
| "frames (Suc n) s =
     (case loop s of Inl e \<Rightarrow> [] | Inr sf \<Rightarrow> snd sf # frames n (fst sf))"

text \<open>
  The closure before the first call of \<open>loop\<close>: \<open>resize()\<close>, the listener, the three
  pools, the clock at zero. \<open>W\<close> and \<open>H\<close> are declared without a value and first assigned
  by \<open>resize\<close>; the 0 below stands for that missing value and is never read.
\<close>

definition start :: "host \<Rightarrow> page \<Rightarrow> engine" where
  "start hst pg =
     (let s0 = resize hst
                 \<lparr>listeners = listeners pg, scheduled = scheduled pg, rnd = rnd pg,
                  W = 0, H = 0, canvas_width = 0, canvas_height = 0,
                  particles = [], goldLines = [], shapes = [],
                  sceneIndex = 0, sceneTime = 0, animT = 0\<rparr>;
          s1 = s0\<lparr>listeners := listeners s0 @ [''resize'']\<rparr>;
          (ps, r1) = Array_from 150 (Particle_reset (W s1) (H s1)) (rnd s1);
          (gs, r2) = Array_from 10 (GoldLine_init (W s1) (H s1)) r1;
          (ss, r3) = Array_from 16 (GeomShape_reset (W s1) (H s1)) r2
      in s1\<lparr>particles := ps, goldLines := gs, shapes := ss, rnd := r3\<rparr>)"

text \<open>
  The whole function: without the element \<open>hero-canvas\<close> it returns at once; an element
  that is not a canvas has no \<open>getContext\<close>, and calling it throws.
\<close>

datatype outcome = Failed error | Declined page | Running engine

definition hero_canvas_animation :: "host \<Rightarrow> page \<Rightarrow> outcome" where
  "hero_canvas_animation hst pg =
     (case document hst ''hero-canvas'' of
        None \<Rightarrow> Declined pg
      | Some canvas \<Rightarrow>
          if \<not> is_canvas canvas then Failed TypeError
          else (case loop (start hst pg) of
                  Inl e \<Rightarrow> Failed e
                | Inr sf \<Rightarrow> Running (fst sf)))"

subsection \<open>Sample inputs\<close>

text \<open>A page without the element \<open>accueil\<close>, in a window of 800 by 600.\<close>

definition sample_host :: host where
  "sample_host = \<lparr>document = Map.empty, innerWidth = 800, innerHeight = 600\<rparr>"

definition sample_page :: page where
  "sample_page = \<lparr>listeners = [], scheduled = 0, rnd = sample_rng\<rparr>"

text \<open>A page with the canvas and the section \<open>accueil\<close>.\<close>

definition canvas_host :: host where
  "canvas_host =
     \<lparr>document = [''hero-canvas'' \<mapsto> \<lparr>is_canvas = True, offsetWidth = 300, offsetHeight = 150\<rparr>,
                  ''accueil'' \<mapsto> \<lparr>is_canvas = False, offsetWidth = 1024, offsetHeight = 768\<rparr>],
      innerWidth = 1280, innerHeight = 900\<rparr>"

text \<open>
  Two particles: one near the top of the surface and far from its lifetime, one in the
  middle of the surface whose next call of \<open>update\<close> takes its age past \<open>maxLife\<close>.
\<close>

definition young_particle :: Particle where
  "young_particle =
     \<lparr>p_x = 400, p_y = - 9.9, p_vx = 0.1, p_vy = - 0.34, p_size = 1, p_alpha = 0.5,
      p_gold = False, p_life = 5, p_maxLife = 440\<rparr>"

definition old_particle :: Particle where
  "old_particle =
     \<lparr>p_x = 400, p_y = 300, p_vx = 0.1, p_vy = - 0.34, p_size = 1, p_alpha = 0.5,
      p_gold = False, p_life = 440, p_maxLife = 440\<rparr>"

text \<open>A streak half way along its path, with a trail of 60 points.\<close>

definition full_streak :: GoldLine where
  "full_streak =
     \<lparr>g_x = 100, g_y = 650, g_targetX = 200, g_targetY = - 50, g_progress = 0.5,
      g_speed = 0.004, g_alpha = 0.2, g_width = 1, g_color = GOLD,
      g_trail = map (\<lambda>i. (real i, 0)) [0..<60]\<rparr>"

section \<open>The scene scheduler\<close>

lemma loop_Inr:
  assumes "sceneIndex s < 5"
  shows "\<exists>s' fr. loop s = Inr (s', fr)"
  using assms
  by (auto simp: loop_def Let_def js_index_def scenes_def split_def)

lemma loop_clock:
  assumes "loop s = Inr (s', fr)"
  shows "sceneTime s' = (if Suc (sceneTime s) \<ge> 420 then 0 else Suc (sceneTime s))"
    and "sceneIndex s' = (if Suc (sceneTime s) \<ge> 420 then (sceneIndex s + 1) mod 5 else sceneIndex s)"
    and "animT s' = Suc (animT s)"
    and "sceneIndex s' < 5"
  using assms
  by (auto simp: loop_def Let_def js_index_def scenes_def split_def SCENE_DURATION_def split: if_splits)

lemma loop_frame:
  assumes "loop s = Inr (s', fr)"
  shows "f_clear fr = (W s, H s)"
    and "f_sceneAlpha fr = sceneAlpha (sceneTime s')"
    and "f_t fr = animT s'"
    and "f_scene fr = scenes ! sceneIndex s'"
  using assms
  by (auto simp: loop_def Let_def js_index_def split_def split: if_splits)

lemma loop_surface:
  assumes "loop s = Inr (s', fr)"
  shows "W s' = W s" and "H s' = H s" and "canvas_width s' = canvas_width s"
    and "canvas_height s' = canvas_height s" and "listeners s' = listeners s"
    and "scheduled s' = Suc (scheduled s)"
  using assms
  by (auto simp: loop_def Let_def js_index_def split_def split: if_splits)

lemma callbacks_clock:
  "sceneIndex s < 5 \<Longrightarrow> sceneTime s < 420 \<Longrightarrow>
   \<exists>s'. callbacks n s = Inr s' \<and> sceneTime s' = (sceneTime s + n) mod 420
     \<and> sceneIndex s' = (sceneIndex s + (sceneTime s + n) div 420) mod 5"
proof (induction n arbitrary: s)
  case 0
  then show ?case by simp
next
  case (Suc n)
  from loop_Inr [OF Suc.prems(1)] obtain s1 fr where l: "loop s = Inr (s1, fr)" by blast
  note c = loop_clock [OF l]
  show ?case
  proof (cases "Suc (sceneTime s) \<ge> 420")
    case True
    with Suc.prems have st: "sceneTime s = 419" by simp
    from c True have s1: "sceneTime s1 = 0" "sceneIndex s1 = (sceneIndex s + 1) mod 5" by simp_all
    have "sceneIndex s1 < 5" "sceneTime s1 < 420" using c(4) s1 by simp_all
    from Suc.IH [OF this] obtain s' where
      r: "callbacks n s1 = Inr s'" "sceneTime s' = (sceneTime s1 + n) mod 420"
         "sceneIndex s' = (sceneIndex s1 + (sceneTime s1 + n) div 420) mod 5" by blast
    have "(sceneIndex s1 + n div 420) mod 5 = (sceneIndex s + (1 + n div 420)) mod 5"
      unfolding s1 by (simp add: mod_add_left_eq add.assoc)
    moreover have "(419 + Suc n) div 420 = 1 + n div 420" by simp
    moreover have "(419 + Suc n) mod 420 = n mod 420" by simp
    ultimately show ?thesis using r l st s1 by simp
  next
    case False
    with c have s1: "sceneTime s1 = Suc (sceneTime s)" "sceneIndex s1 = sceneIndex s" by simp_all
    have "sceneIndex s1 < 5" "sceneTime s1 < 420" using c(4) s1 False by simp_all
    from Suc.IH [OF this] obtain s' where
      r: "callbacks n s1 = Inr s'" "sceneTime s' = (sceneTime s1 + n) mod 420"
         "sceneIndex s' = (sceneIndex s1 + (sceneTime s1 + n) div 420) mod 5" by blast
    then show ?thesis using l s1 by simp
  qed
qed

lemma start_clock:
  "sceneIndex (start hst pg) = 0" "sceneTime (start hst pg) = 0" "animT (start hst pg) = 0"
  by (simp_all add: start_def resize_def Let_def split_def)

lemma frames_same_scene:
  "sceneIndex s < 5 \<Longrightarrow> sceneTime s + n < 420 \<Longrightarrow>
   map f_scene (frames n s) = replicate n (scenes ! sceneIndex s)"
proof (induction n arbitrary: s)
  case 0
  then show ?case by simp
next
  case (Suc n)
  from loop_Inr [OF Suc.prems(1)] obtain s1 fr where l: "loop s = Inr (s1, fr)" by blast
  note c = loop_clock [OF l] and f = loop_frame [OF l]
  from c Suc.prems have s1: "sceneTime s1 = Suc (sceneTime s)" "sceneIndex s1 = sceneIndex s" by simp_all
  have "sceneIndex s1 < 5" "sceneTime s1 + n < 420" using s1 Suc.prems by simp_all
  from Suc.IH [OF this] show ?case using l s1 f by simp
qed

lemma frames_append:
  "frames (n + m) s = frames n s @ (case callbacks n s of Inl e \<Rightarrow> [] | Inr s' \<Rightarrow> frames m s')"
  by (induction n arbitrary: s) (auto split: sum.splits)

text \<open>
  Claim C1. After \<open>n\<close> invocations of the frame callback from engine start, for every
  \<open>n\<close>, no invocation has thrown, the active scene index is \<open>(n div 420) mod 5\<close> and the
  per-scene counter is \<open>n mod 420\<close>. In particular the first 420 frames draw scene 0
  (Vision) 419 times and then scene 1 (Leadership): the only transition is on call 420,
  where the counter is reset to 0.
\<close>

theorem scene_clock:
  "(\<exists>s. callbacks n (start hst pg) = Inr s
        \<and> sceneIndex s = (n div 420) mod 5 \<and> sceneTime s = n mod 420)
   \<and> map f_scene (frames 420 (start hst pg)) = replicate 419 sceneVision @ [sceneLeadership]
   \<and> (\<exists>s. callbacks 419 (start hst pg) = Inr s \<and> sceneIndex s = 0 \<and> sceneTime s = 419)
   \<and> (\<exists>s. callbacks 420 (start hst pg) = Inr s \<and> sceneIndex s = 1 \<and> sceneTime s = 0)"
proof -
  let ?s = "start hst pg"
  have i: "sceneIndex ?s < 5" "sceneTime ?s < 420" by (simp_all add: start_clock)
  have g: "\<exists>s. callbacks k ?s = Inr s \<and> sceneIndex s = (k div 420) mod 5 \<and> sceneTime s = k mod 420" for k
    using callbacks_clock [OF i, of k] by (auto simp: start_clock)
  from g [of 419] obtain s19 where
    s19: "callbacks 419 ?s = Inr s19" "sceneIndex s19 = 0" "sceneTime s19 = 419" by auto
  from g [of 420] obtain s20 where
    s20: "callbacks 420 ?s = Inr s20" "sceneIndex s20 = 1" "sceneTime s20 = 0" by auto
  have a: "map f_scene (frames 419 ?s) = replicate 419 sceneVision"
    using frames_same_scene [of ?s 419] by (simp add: start_clock scenes_def)
  from loop_Inr [of s19] s19 obtain s1 fr where l: "loop s19 = Inr (s1, fr)" by auto
  have "f_scene fr = sceneLeadership"
    using loop_frame(4) [OF l] loop_clock(2) [OF l] s19 by (simp add: scenes_def)
  then have b: "map f_scene (frames 1 s19) = [sceneLeadership]" using l by simp
  have "frames 420 ?s = frames 419 ?s @ frames 1 s19"
    using frames_append [of 419 1 ?s] s19 by simp
  with a b have "map f_scene (frames 420 ?s) = replicate 419 sceneVision @ [sceneLeadership]"
    by simp
  with g [of n] s19 s20 show ?thesis by blast
qed

section \<open>The transition alpha\<close>

lemma frames_alpha:
  "sceneIndex s < 5 \<Longrightarrow> sceneTime s < 420 \<Longrightarrow>
   map f_sceneAlpha (frames n s) = map (\<lambda>k. sceneAlpha ((sceneTime s + k) mod 420)) [1..<Suc n]"
proof (induction n arbitrary: s)
  case 0
  then show ?case by simp
next
  case (Suc n)
  from loop_Inr [OF Suc.prems(1)] obtain s1 fr where l: "loop s = Inr (s1, fr)" by blast
  note c = loop_clock [OF l] and f = loop_frame [OF l]
  have t1: "sceneTime s1 = Suc (sceneTime s) mod 420"
    using c(1) Suc.prems(2) by (cases "sceneTime s = 419") auto
  then have b: "sceneIndex s1 < 5" "sceneTime s1 < 420" using c(4) by simp_all
  have "[1..<Suc (Suc n)] = 1 # map Suc [1..<Suc n]"
    by (simp add: map_Suc_upt upt_conv_Cons del: upt_Suc)
  moreover have "(Suc (sceneTime s) mod 420 + k) mod 420 = (sceneTime s + Suc k) mod 420" for k
    by (simp add: mod_add_left_eq mod_Suc_eq)
  ultimately show ?case
    using Suc.IH [OF b] l f(2) t1 by (simp add: o_def del: upt_Suc)
qed

lemma sceneAlpha_up: "e < 42 \<Longrightarrow> sceneAlpha e = real e / 42"
  by (simp add: sceneAlpha_def SCENE_DURATION_def Let_def)

lemma sceneAlpha_mid: "42 \<le> e \<Longrightarrow> e \<le> 378 \<Longrightarrow> sceneAlpha e = 1"
  by (simp add: sceneAlpha_def SCENE_DURATION_def Let_def)

lemma sceneAlpha_down: "378 < e \<Longrightarrow> sceneAlpha e = (420 - real e) / 42"
  by (simp add: sceneAlpha_def SCENE_DURATION_def Let_def field_simps)

text \<open>
  Claim C2. The alpha of the \<open>k\<close>-th frame after engine start is \<open>sceneAlpha\<close> of the
  per-scene counter \<open>k mod 420\<close>. For every counter value \<open>e < 420\<close> it is
  \<open>(e/420)/0.1\<close> when \<open>e/420 < 0.1\<close>, \<open>(1 - e/420)/0.1\<close> when \<open>e/420 > 0.9\<close> and 1
  otherwise: 0 at \<open>e = 0\<close>, strictly increasing as \<open>e/42\<close> over the first tenth
  (\<open>e < 42\<close>), 1 from 42 to 378, and strictly decreasing as \<open>(420 - e)/42\<close> over the last
  tenth, where it stays positive.
\<close>

theorem scene_alpha_ramp:
  "map f_sceneAlpha (frames n (start hst pg)) = map (\<lambda>k. sceneAlpha (k mod 420)) [1..<Suc n]
   \<and> (e < 420 \<longrightarrow>
        sceneAlpha e = (if real e / 420 < 0.1 then real e / 420 / 0.1
                        else if real e / 420 > 0.9 then (1 - real e / 420) / 0.1
                        else 1))
   \<and> sceneAlpha 0 = 0
   \<and> (e < 42 \<longrightarrow> sceneAlpha e = real e / 42 \<and> sceneAlpha e < sceneAlpha (Suc e))
   \<and> (42 \<le> e \<and> e \<le> 378 \<longrightarrow> sceneAlpha e = 1)
   \<and> (378 < e \<and> e < 420 \<longrightarrow>
        sceneAlpha e = (420 - real e) / 42 \<and> sceneAlpha e < sceneAlpha (e - 1) \<and> 0 < sceneAlpha e)"
proof -
  have a: "map f_sceneAlpha (frames n (start hst pg)) = map (\<lambda>k. sceneAlpha (k mod 420)) [1..<Suc n]"
    using frames_alpha [of "start hst pg" n] by (simp add: start_clock)
  have b: "sceneAlpha e = (if real e / 420 < 0.1 then real e / 420 / 0.1
                        else if real e / 420 > 0.9 then (1 - real e / 420) / 0.1
                        else 1)"
    by (simp add: sceneAlpha_def SCENE_DURATION_def Let_def)
  have c: "sceneAlpha 0 = 0" by (simp add: sceneAlpha_up)
  have d: "sceneAlpha e < sceneAlpha (Suc e)" if "e < 42"
  proof (cases "Suc e < 42")
    case True
    then show ?thesis using that by (simp add: sceneAlpha_up)
  next
    case False
    with that have "e = 41" by simp
    then show ?thesis by (simp add: sceneAlpha_up sceneAlpha_mid)
  qed
  have e: "sceneAlpha e < sceneAlpha (e - 1)" if "378 < e"
  proof (cases "378 < e - 1")
    case True
    then show ?thesis using that by (simp add: sceneAlpha_down of_nat_diff)
  next
    case False
    with that have "e = 379" by simp
    then show ?thesis by (simp add: sceneAlpha_down sceneAlpha_mid)
  qed
  have f: "0 < sceneAlpha e" if "378 < e" "e < 420"
    using that by (simp add: sceneAlpha_down)
  show ?thesis
    using a b c d e f by (simp add: sceneAlpha_up sceneAlpha_mid sceneAlpha_down)
qed

theorem scene_alpha_ramp_witness:
  "(21::nat) < 420 \<and> (21::nat) < 42 \<and> sceneAlpha 21 = 1 / 2 \<and> sceneAlpha 21 < sceneAlpha 22
   \<and> (42::nat) \<le> 200 \<and> (200::nat) \<le> 378 \<and> sceneAlpha 200 = 1
   \<and> (378::nat) < 399 \<and> (399::nat) < 420 \<and> sceneAlpha 399 = 1 / 2 \<and> sceneAlpha 399 < sceneAlpha 398
   \<and> sceneAlpha 419 = 1 / 42"
  using scene_alpha_ramp [of 0 sample_host sample_page 21]
    scene_alpha_ramp [of 0 sample_host sample_page 200]
    scene_alpha_ramp [of 0 sample_host sample_page 399]
    scene_alpha_ramp [of 0 sample_host sample_page 419]
  by simp

section \<open>Starting the engine\<close>

lemma length_Array_from: "length (fst (Array_from n f r)) = n"
  by (induction n arbitrary: r) (simp_all add: split_def Let_def)

lemma length_forEach: "length (fst (forEach f xs r)) = length xs"
  by (induction xs arbitrary: r) (simp_all add: split_def Let_def)

lemma forEach_nth:
  "i < length xs \<Longrightarrow>
   fst (forEach f xs r) ! i = fst (f (xs ! i) (snd (forEach f (take i xs) r)))"
proof (induction xs arbitrary: i r)
  case Nil
  then show ?case by simp
next
  case (Cons a as)
  show ?case
  proof (cases i)
    case 0
    then show ?thesis by (simp add: split_def Let_def)
  next
    case (Suc n)
    with Cons.prems have "n < length as" by simp
    from Cons.IH [OF this, of "snd (f a r)"] Suc show ?thesis
      by (simp add: split_def Let_def)
  qed
qed

lemma loop_pools:
  assumes "loop s = Inr (s', fr)"
  shows "particles s' = fst (forEach (Particle_update (W s) (H s)) (particles s) (rnd s))"
    and "length (particles s') = length (particles s)"
    and "length (goldLines s') = length (goldLines s)"
    and "length (shapes s') = length (shapes s)"
  using assms
  by (auto simp: loop_def Let_def js_index_def split_def length_forEach split: if_splits)

lemma start_page:
  "listeners (start hst pg) = listeners pg @ [''resize'']"
  "scheduled (start hst pg) = scheduled pg"
  "length (particles (start hst pg)) = 150"
  "length (goldLines (start hst pg)) = 10"
  "length (shapes (start hst pg)) = 16"
  by (simp_all add: start_def resize_def Let_def split_def length_Array_from)

text \<open>
  Claim C3. When the document has no element \<open>hero-canvas\<close>, the function returns at
  once and without an error: the page is as it was, so no listener is registered, no
  frame is requested and no random number is drawn, and no engine (no pool) exists.
  With a canvas, by contrast, it registers the \<open>resize\<close> listener, builds pools of
  150, 10 and 16 elements and requests a frame.
\<close>

theorem no_canvas_declines:
  "(document hst ''hero-canvas'' = None \<longrightarrow> hero_canvas_animation hst pg = Declined pg)
   \<and> (document hst ''hero-canvas'' = Some c \<and> is_canvas c \<longrightarrow>
        (\<exists>s. hero_canvas_animation hst pg = Running s
           \<and> listeners s = listeners pg @ [''resize''] \<and> scheduled s = Suc (scheduled pg)
           \<and> length (particles s) = 150 \<and> length (goldLines s) = 10
           \<and> length (shapes s) = 16))"
proof -
  have "\<exists>s. hero_canvas_animation hst pg = Running s
           \<and> listeners s = listeners pg @ [''resize''] \<and> scheduled s = Suc (scheduled pg)
           \<and> length (particles s) = 150 \<and> length (goldLines s) = 10
           \<and> length (shapes s) = 16"
    if c: "document hst ''hero-canvas'' = Some c" "is_canvas c"
  proof -
    have "sceneIndex (start hst pg) < 5" by (simp add: start_clock)
    from loop_Inr [OF this] obtain s fr where l: "loop (start hst pg) = Inr (s, fr)" by blast
    have "hero_canvas_animation hst pg = Running s"
      using c l by (simp add: hero_canvas_animation_def)
    then show ?thesis
      using loop_surface [OF l] loop_pools [OF l] by (simp add: start_page)
  qed
  then show ?thesis by (simp add: hero_canvas_animation_def)
qed

theorem no_canvas_declines_witness:
  "document sample_host ''hero-canvas'' = None
   \<and> hero_canvas_animation sample_host sample_page = Declined sample_page
   \<and> document canvas_host ''hero-canvas''
       = Some \<lparr>is_canvas = True, offsetWidth = 300, offsetHeight = 150\<rparr>
   \<and> (\<exists>s. hero_canvas_animation canvas_host sample_page = Running s
          \<and> listeners s = [''resize''] \<and> scheduled s = 1 \<and> length (particles s) = 150)"
proof -
  have a: "document sample_host ''hero-canvas'' = None" by (simp add: sample_host_def)
  have b: "document canvas_host ''hero-canvas''
       = Some \<lparr>is_canvas = True, offsetWidth = 300, offsetHeight = 150\<rparr>"
    by (simp add: canvas_host_def)
  show ?thesis
    using no_canvas_declines [of sample_host sample_page] a
      no_canvas_declines [of canvas_host sample_page "\<lparr>is_canvas = True, offsetWidth = 300, offsetHeight = 150\<rparr>"] b
    by (auto simp: sample_page_def)
qed

section \<open>Resizing the surface\<close>




section \<open>Particles\<close>

lemma Particle_reset_eq:
  "Particle_reset w h r =
     (\<lparr>p_x = draws r (cursor r) * w,
       p_y = draws r (cursor r + 1) * h,
       p_vx = (draws r (cursor r + 2) - 0.5) * 0.4,
       p_vy = - draws r (cursor r + 3) * 0.6 - 0.1,
       p_size = draws r (cursor r + 4) * 2.5 + 0.3,
       p_alpha = draws r (cursor r + 5) * 0.7 + 0.1,
       p_gold = (draws r (cursor r + 6) > 0.6),
       p_life = 0,
       p_maxLife = 200 + draws r (cursor r + 7) * 300\<rparr>, r\<lparr>cursor := cursor r + 8\<rparr>)"
  by (simp add: Particle_reset_def Math_random_def Let_def eval_nat_numeral)

lemma Particle_update_reset:
  "real (Suc (p_life p)) > p_maxLife p \<or> p_y p + p_vy p < - 10 \<Longrightarrow>
   Particle_update w h p r = Particle_reset w h r"
  by (auto simp: Particle_update_def Let_def)

lemma Particle_update_move:
  "\<not> real (Suc (p_life p)) > p_maxLife p \<Longrightarrow> \<not> p_y p + p_vy p < - 10 \<Longrightarrow>
   Particle_update w h p r =
     (p\<lparr>p_x := p_x p + p_vx p, p_y := p_y p + p_vy p, p_life := Suc (p_life p)\<rparr>, r)"
  by (auto simp: Particle_update_def Let_def)

lemma Particle_reset_draws: "snd (Particle_reset w h r) \<noteq> r"
proof
  assume "snd (Particle_reset w h r) = r"
  then have "cursor (snd (Particle_reset w h r)) = cursor r" by simp
  then show False by (simp add: Particle_reset_eq)
qed

lemma Particle_update_by_plus: "Particle_update_by (+) w h p r = Particle_update w h p r"
  by (simp add: Particle_update_by_def Particle_update_def)

lemma Particle_update_by_reset:
  "real (Suc (p_life p)) > p_maxLife p \<or> add (p_y p) (p_vy p) < - 10 \<Longrightarrow>
   Particle_update_by add w h p r = Particle_reset w h r"
  by (auto simp: Particle_update_by_def Let_def)

lemma Particle_update_by_move:
  "\<not> real (Suc (p_life p)) > p_maxLife p \<Longrightarrow> \<not> add (p_y p) (p_vy p) < - 10 \<Longrightarrow>
   Particle_update_by add w h p r =
     (p\<lparr>p_x := add (p_x p) (p_vx p), p_y := add (p_y p) (p_vy p),
        p_life := Suc (p_life p)\<rparr>, r)"
  by (auto simp: Particle_update_by_def Let_def)

lemma Particle_updates_alive:
  "(\<forall>j<k. - 10 \<le> add (p_y (fst (Particle_updates add j w h (p, r))))
                     (p_vy (fst (Particle_updates add j w h (p, r))))) \<Longrightarrow>
   real (p_life p + k) \<le> p_maxLife p \<Longrightarrow>
   \<exists>x y. Particle_updates add k w h (p, r) = (p\<lparr>p_x := x, p_y := y, p_life := p_life p + k\<rparr>, r)"
proof (induction k)
  case 0
  have "Particle_updates add 0 w h (p, r) = (p\<lparr>p_x := p_x p, p_y := p_y p, p_life := p_life p + 0\<rparr>, r)"
    by simp
  then show ?case by blast
next
  case (Suc k)
  from Suc.prems have "real (p_life p + k) \<le> p_maxLife p" by simp
  moreover from Suc.prems(1)
  have "\<forall>j<k. - 10 \<le> add (p_y (fst (Particle_updates add j w h (p, r))))
                     (p_vy (fst (Particle_updates add j w h (p, r))))"
    by simp
  ultimately obtain x y where
    a: "Particle_updates add k w h (p, r) = (p\<lparr>p_x := x, p_y := y, p_life := p_life p + k\<rparr>, r)"
    using Suc.IH by blast
  let ?q = "p\<lparr>p_x := x, p_y := y, p_life := p_life p + k\<rparr>"
  from Suc.prems(1) have "- 10 \<le> add (p_y (fst (Particle_updates add k w h (p, r))))
                     (p_vy (fst (Particle_updates add k w h (p, r))))"
    by simp
  then have b: "\<not> add (p_y ?q) (p_vy ?q) < - 10" unfolding a by simp
  have c: "\<not> real (Suc (p_life ?q)) > p_maxLife ?q" using Suc.prems(2) by simp
  have "Particle_updates add (Suc k) w h (p, r) = Particle_update_by add w h ?q r"
    by (simp add: a)
  also have "\<dots> = (?q\<lparr>p_x := add (p_x ?q) (p_vx ?q), p_y := add (p_y ?q) (p_vy ?q),
        p_life := Suc (p_life ?q)\<rparr>, r)"
    using c b by (rule Particle_update_by_move [where p = ?q and add = add])
  also have "\<dots> = (p\<lparr>p_x := add (p_x ?q) (p_vx ?q), p_y := add (p_y ?q) (p_vy ?q),
        p_life := p_life p + Suc k\<rparr>, r)"
    by simp
  finally show ?case by blast
qed

text \<open>
  Claim C4. Take one call of \<open>update\<close> after which the particle has not left the surface
  through the top (the moved \<open>y\<close> is at least -10). The call reinitialises the particle
  exactly when the incremented age is greater than the particle's own \<open>maxLife\<close>;
  otherwise it only moves the particle and counts the age, drawing no random number. A
  freshly initialised particle has age 0. Over several calls, however the engine rounds
  its sums: as long as the \<open>y\<close> to which each call moves the particle is at least -10 and
  the age has not passed \<open>maxLife\<close>, no call reinitialises the particle. After \<open>k\<close> such
  calls only its position and its age have changed, the age has grown by \<open>k\<close> (it is \<open>k\<close>
  for a particle that started fresh) and no random number has been drawn. The next call
  reinitialises it if it takes the age past \<open>maxLife\<close>.
\<close>

theorem particle_lifetime:
  "(- 10 \<le> p_y p + p_vy p \<longrightarrow>
      ((Particle_update w h p r = Particle_reset w h r) \<longleftrightarrow> real (Suc (p_life p)) > p_maxLife p)
      \<and> ((Particle_update w h p r
            = (p\<lparr>p_x := p_x p + p_vx p, p_y := p_y p + p_vy p, p_life := Suc (p_life p)\<rparr>, r))
           \<longleftrightarrow> \<not> real (Suc (p_life p)) > p_maxLife p))
   \<and> p_life (fst (Particle_reset w h r)) = 0
   \<and> Particle_updates (+) 1 w h (p, r) = Particle_update w h p r
   \<and> ((\<forall>j<k. - 10 \<le> add (p_y (fst (Particle_updates add j w h (p, r))))
                        (p_vy (fst (Particle_updates add j w h (p, r)))))
        \<and> real (p_life p + k) \<le> p_maxLife p \<longrightarrow>
        Particle_updates add k w h (p, r)
          = (p\<lparr>p_x := p_x (fst (Particle_updates add k w h (p, r))),
               p_y := p_y (fst (Particle_updates add k w h (p, r))),
               p_life := p_life p + k\<rparr>, r)
        \<and> (p_maxLife p < real (Suc (p_life p + k)) \<longrightarrow>
             Particle_updates add (Suc k) w h (p, r) = Particle_reset w h r))"
proof -
  let ?m = "p\<lparr>p_x := p_x p + p_vx p, p_y := p_y p + p_vy p, p_life := Suc (p_life p)\<rparr>"
  have one: "(Particle_update w h p r = Particle_reset w h r) \<longleftrightarrow> real (Suc (p_life p)) > p_maxLife p"
    "(Particle_update w h p r = (?m, r)) \<longleftrightarrow> \<not> real (Suc (p_life p)) > p_maxLife p"
    if y: "- 10 \<le> p_y p + p_vy p"
  proof -
    have ny: "\<not> p_y p + p_vy p < - 10" using y by simp
    have d: "Particle_reset w h r \<noteq> (?m, r)"
      using Particle_reset_draws [of w h r] by (metis snd_conv)
    show "(Particle_update w h p r = Particle_reset w h r) \<longleftrightarrow> real (Suc (p_life p)) > p_maxLife p"
    proof (cases "real (Suc (p_life p)) > p_maxLife p")
      case True
      then show ?thesis using Particle_update_reset [of p w h r] by simp
    next
      case False
      then show ?thesis using Particle_update_move [OF False ny, of w h r] d by simp
    qed
    show "(Particle_update w h p r = (?m, r)) \<longleftrightarrow> \<not> real (Suc (p_life p)) > p_maxLife p"
    proof (cases "real (Suc (p_life p)) > p_maxLife p")
      case True
      then show ?thesis using Particle_update_reset [of p w h r] d by simp
    next
      case False
      then show ?thesis using Particle_update_move [OF False ny, of w h r] by simp
    qed
  qed
  have l0: "p_life (fst (Particle_reset w h r)) = 0" by (simp add: Particle_reset_eq)
  have first: "Particle_updates (+) 1 w h (p, r) = Particle_update w h p r"
    by (simp add: Particle_update_by_plus)
  let ?U = "Particle_updates add k w h (p, r)"
  have run: "?U = (p\<lparr>p_x := p_x (fst ?U), p_y := p_y (fst ?U), p_life := p_life p + k\<rparr>, r)"
    and last: "p_maxLife p < real (Suc (p_life p + k)) \<longrightarrow>
             Particle_updates add (Suc k) w h (p, r) = Particle_reset w h r"
    if h: "\<forall>j<k. - 10 \<le> add (p_y (fst (Particle_updates add j w h (p, r))))
                        (p_vy (fst (Particle_updates add j w h (p, r))))"
      "real (p_life p + k) \<le> p_maxLife p"
  proof -
    from Particle_updates_alive [OF h] obtain x y where
      a: "?U = (p\<lparr>p_x := x, p_y := y, p_life := p_life p + k\<rparr>, r)" by blast
    have "p_x (fst ?U) = x" "p_y (fst ?U) = y" by (simp_all add: a)
    with a show "?U = (p\<lparr>p_x := p_x (fst ?U), p_y := p_y (fst ?U), p_life := p_life p + k\<rparr>, r)"
      by simp
    show "p_maxLife p < real (Suc (p_life p + k)) \<longrightarrow>
             Particle_updates add (Suc k) w h (p, r) = Particle_reset w h r"
      by (simp add: a Particle_update_by_reset)
  qed
  show ?thesis using one l0 first run last by blast
qed

lemma sample_reset:
  "Particle_reset 800 600 sample_rng =
     (\<lparr>p_x = 80, p_y = 120, p_vx = - 0.08, p_vy = - 0.34, p_size = 1.55, p_alpha = 0.52,
       p_gold = True, p_life = 0, p_maxLife = 440\<rparr>, sample_rng\<lparr>cursor := 8\<rparr>)"
  by (simp add: Particle_reset_eq sample_rng_def)

lemma sample_run:
  "Particle_updates (+) (Suc 0) 800 600 (Particle_reset 800 600 sample_rng) =
     (\<lparr>p_x = 79.92, p_y = 119.66, p_vx = - 0.08, p_vy = - 0.34, p_size = 1.55, p_alpha = 0.52,
       p_gold = True, p_life = 1, p_maxLife = 440\<rparr>, sample_rng\<lparr>cursor := 8\<rparr>)"
  "Particle_updates (+) (Suc (Suc 0)) 800 600 (Particle_reset 800 600 sample_rng) =
     (\<lparr>p_x = 79.84, p_y = 119.32, p_vx = - 0.08, p_vy = - 0.34, p_size = 1.55, p_alpha = 0.52,
       p_gold = True, p_life = 2, p_maxLife = 440\<rparr>, sample_rng\<lparr>cursor := 8\<rparr>)"
  "Particle_updates (+) (Suc (Suc (Suc 0))) 800 600 (Particle_reset 800 600 sample_rng) =
     (\<lparr>p_x = 79.76, p_y = 118.98, p_vx = - 0.08, p_vy = - 0.34, p_size = 1.55, p_alpha = 0.52,
       p_gold = True, p_life = 3, p_maxLife = 440\<rparr>, sample_rng\<lparr>cursor := 8\<rparr>)"
  by (simp_all add: sample_reset Particle_update_by_def Let_def)

theorem particle_lifetime_witness:
  "Particle_update 800 600 old_particle sample_rng = Particle_reset 800 600 sample_rng
   \<and> Particle_update 800 600 (fst (Particle_reset 800 600 sample_rng)) (sample_rng\<lparr>cursor := 8\<rparr>)
       = (\<lparr>p_x = 79.92, p_y = 119.66, p_vx = - 0.08, p_vy = - 0.34, p_size = 1.55,
            p_alpha = 0.52, p_gold = True, p_life = 1, p_maxLife = 440\<rparr>, sample_rng\<lparr>cursor := 8\<rparr>)
   \<and> p_life (fst (Particle_updates (+) 3 800 600 (Particle_reset 800 600 sample_rng))) = 3
   \<and> p_maxLife (fst (Particle_updates (+) 3 800 600 (Particle_reset 800 600 sample_rng))) = 440
   \<and> snd (Particle_updates (+) 3 800 600 (Particle_reset 800 600 sample_rng))
       = sample_rng\<lparr>cursor := 8\<rparr>
   \<and> Particle_updates (+) (Suc 0) 800 600 (old_particle, sample_rng)
       = Particle_reset 800 600 sample_rng"
proof -
  have a: "- 10 \<le> p_y old_particle + p_vy old_particle"
    "real (Suc (p_life old_particle)) > p_maxLife old_particle"
    "real (p_life old_particle + 0) \<le> p_maxLife old_particle"
    "p_maxLife old_particle < real (Suc (p_life old_particle + 0))"
    by (simp_all add: old_particle_def)
  let ?p0 = "fst (Particle_reset 800 600 sample_rng)"
  let ?r1 = "sample_rng\<lparr>cursor := 8\<rparr>"
  have pr: "(?p0, ?r1) = Particle_reset 800 600 sample_rng" by (simp add: sample_reset)
  have b: "- 10 \<le> p_y ?p0 + p_vy ?p0" "\<not> real (Suc (p_life ?p0)) > p_maxLife ?p0"
    by (simp_all add: sample_reset)
  have c: "\<forall>j<3. - 10 \<le> p_y (fst (Particle_updates (+) j 800 600 (?p0, ?r1)))
                        + p_vy (fst (Particle_updates (+) j 800 600 (?p0, ?r1)))"
  proof (intro allI impI)
    fix j :: nat
    assume "j < 3"
    then have "j = 0 \<or> j = Suc 0 \<or> j = Suc (Suc 0)" by arith
    then show "- 10 \<le> p_y (fst (Particle_updates (+) j 800 600 (?p0, ?r1)))
                        + p_vy (fst (Particle_updates (+) j 800 600 (?p0, ?r1)))"
      unfolding pr by (elim disjE) (simp_all only: sample_run, simp_all add: sample_reset)
  qed
  have d: "real (p_life ?p0 + 3) \<le> p_maxLife ?p0" by (simp add: sample_reset)
  let ?U = "Particle_updates (+) 3 800 600 (?p0, ?r1)"
  define x where "x = p_x (fst ?U)"
  define y where "y = p_y (fst ?U)"
  have e: "?U = (?p0\<lparr>p_x := x, p_y := y, p_life := p_life ?p0 + 3\<rparr>, ?r1)"
    unfolding x_def y_def
    using particle_lifetime [of ?p0 800 600 ?r1 3 "(+)"] c d by blast
  have f: "p_life (fst ?U) = 3" "p_maxLife (fst ?U) = 440" "snd ?U = ?r1"
    unfolding e by (simp_all add: sample_reset)
  have vac: "\<forall>j<0. - 10 \<le> p_y (fst (Particle_updates (+) j 800 600 (old_particle, sample_rng)))
                        + p_vy (fst (Particle_updates (+) j 800 600 (old_particle, sample_rng)))"
    by simp
  have g: "Particle_updates (+) (Suc 0) 800 600 (old_particle, sample_rng)
       = Particle_reset 800 600 sample_rng"
    using particle_lifetime [of old_particle 800 600 sample_rng 0 "(+)"] vac a(3,4) by blast
  have i: "Particle_update 800 600 old_particle sample_rng = Particle_reset 800 600 sample_rng"
    using particle_lifetime [of old_particle 800 600 sample_rng 0 "(+)"] a(1,2) by blast
  have k: "Particle_update 800 600 ?p0 ?r1
       = (\<lparr>p_x = 79.92, p_y = 119.66, p_vx = - 0.08, p_vy = - 0.34, p_size = 1.55,
            p_alpha = 0.52, p_gold = True, p_life = 1, p_maxLife = 440\<rparr>, ?r1)"
    using particle_lifetime [of ?p0 800 600 ?r1 0 "(+)"] b by (simp add: sample_reset)
  from f g i k show ?thesis unfolding pr by simp
qed

text \<open>
  Claim C10. A call of \<open>update\<close> that moves the particle above the top of the surface
  (the moved \<open>y\<close> is below -10) reinitialises it, whatever its age: the result is that of
  \<open>reset\<close>, with age 0 and eight fresh draws, also when the age is far below \<open>maxLife\<close>.
\<close>

theorem particle_leaves_top:
  "p_y p + p_vy p < - 10 \<Longrightarrow>
   Particle_update w h p r = Particle_reset w h r
   \<and> p_life (fst (Particle_update w h p r)) = 0
   \<and> cursor (snd (Particle_update w h p r)) = cursor r + 8"
  by (simp add: Particle_update_reset Particle_reset_eq)

theorem particle_leaves_top_witness:
  "p_y young_particle + p_vy young_particle < - 10
   \<and> real (Suc (p_life young_particle)) < p_maxLife young_particle
   \<and> Particle_update 800 600 young_particle sample_rng = Particle_reset 800 600 sample_rng
   \<and> p_life (fst (Particle_update 800 600 young_particle sample_rng)) = 0
   \<and> p_y (fst (Particle_update 800 600 young_particle sample_rng)) = 120"
proof -
  have a: "p_y young_particle + p_vy young_particle < - 10"
    "real (Suc (p_life young_particle)) < p_maxLife young_particle"
    by (simp_all add: young_particle_def)
  show ?thesis
    using particle_leaves_top [OF a(1), of 800 600 sample_rng] a
    by (simp add: sample_reset)
qed

lemma unit_draws_sample: "unit_draws sample_rng"
proof -
  have "real (Suc (n mod 8)) < 10" for n :: nat
  proof -
    have "n mod 8 < 8" by simp
    then have "Suc (n mod 8) < 10" by linarith
    then have "real (Suc (n mod 8)) < real 10" by (simp only: of_nat_less_iff)
    then show ?thesis by simp
  qed
  then show ?thesis by (simp add: unit_draws_def sample_rng_def)
qed

text \<open>
  Where a particle reappears: \<open>reset\<close> draws the height as well as the abscissa. On a
  surface of 800 by 600 (the bottom edge is \<open>y = 600\<close>) the particle whose age passes its
  \<open>maxLife\<close> reappears, with the sample draws, at \<open>y = 120\<close>.
\<close>

theorem particle_bottom_counterexample:
  "real (Suc (p_life old_particle)) > p_maxLife old_particle
   \<and> p_y (fst (Particle_update 800 600 old_particle sample_rng)) = 120
   \<and> p_y (fst (Particle_update 800 600 old_particle sample_rng)) \<noteq> 600"
  by (simp add: Particle_update_reset sample_reset old_particle_def)

text \<open>
  Claim C5, amended. When the incremented age of a particle passes its \<open>maxLife\<close>,
  \<open>update\<close> calls \<open>reset\<close>, which overwrites the particle with fresh values: a position
  anywhere on the surface and not at its bottom edge, \<open>x = u\<^sub>1 W\<close> and \<open>y = u\<^sub>2 H\<close> for two
  new draws (with draws in \<open>[0, 1)\<close> and \<open>W, H \<ge> 0\<close>: \<open>0 \<le> x \<le> W\<close> and \<open>0 \<le> y \<le> H\<close>, and
  \<open>x < W\<close>, \<open>y < H\<close> where \<open>W\<close>, \<open>H\<close> are positive), age 0, a new velocity pointing upwards
  and a new \<open>maxLife\<close> in \<open>[200, 500)\<close>. It does so in place: after the pool's \<open>forEach\<close>
  the pool has the length it had, and the slot of a particle whose age passed its
  \<open>maxLife\<close> holds the reinitialised particle, made from the draws that follow those of
  the slots before it.
\<close>

theorem particle_respawn:
  "(real (Suc (p_life p)) > p_maxLife p \<longrightarrow> Particle_update w h p r = Particle_reset w h r)
   \<and> p_x (fst (Particle_reset w h r)) = draws r (cursor r) * w
   \<and> p_y (fst (Particle_reset w h r)) = draws r (cursor r + 1) * h
   \<and> p_vx (fst (Particle_reset w h r)) = (draws r (cursor r + 2) - 0.5) * 0.4
   \<and> p_vy (fst (Particle_reset w h r)) = - draws r (cursor r + 3) * 0.6 - 0.1
   \<and> p_life (fst (Particle_reset w h r)) = 0
   \<and> p_maxLife (fst (Particle_reset w h r)) = 200 + draws r (cursor r + 7) * 300
   \<and> (unit_draws r \<and> 0 \<le> w \<and> 0 \<le> h \<longrightarrow>
        0 \<le> p_x (fst (Particle_reset w h r)) \<and> p_x (fst (Particle_reset w h r)) \<le> w
        \<and> 0 \<le> p_y (fst (Particle_reset w h r)) \<and> p_y (fst (Particle_reset w h r)) \<le> h
        \<and> (0 < w \<longrightarrow> p_x (fst (Particle_reset w h r)) < w)
        \<and> (0 < h \<longrightarrow> p_y (fst (Particle_reset w h r)) < h))
   \<and> (unit_draws r \<longrightarrow>
        - 0.2 \<le> p_vx (fst (Particle_reset w h r)) \<and> p_vx (fst (Particle_reset w h r)) < 0.2
        \<and> - 0.7 < p_vy (fst (Particle_reset w h r)) \<and> p_vy (fst (Particle_reset w h r)) \<le> - 0.1
        \<and> 200 \<le> p_maxLife (fst (Particle_reset w h r))
        \<and> p_maxLife (fst (Particle_reset w h r)) < 500)
   \<and> (i < length ps \<and> real (Suc (p_life (ps ! i))) > p_maxLife (ps ! i) \<longrightarrow>
        length (fst (forEach (Particle_update w h) ps r)) = length ps
        \<and> fst (forEach (Particle_update w h) ps r) ! i
            = fst (Particle_reset w h (snd (forEach (Particle_update w h) (take i ps) r)))
        \<and> p_life (fst (forEach (Particle_update w h) ps r) ! i) = 0)"
proof -
  let ?q = "fst (Particle_reset w h r)"
  have a: "real (Suc (p_life p)) > p_maxLife p \<longrightarrow> Particle_update w h p r = Particle_reset w h r"
    by (simp add: Particle_update_reset)
  have b: "p_x ?q = draws r (cursor r) * w" "p_y ?q = draws r (cursor r + 1) * h"
    "p_vx ?q = (draws r (cursor r + 2) - 0.5) * 0.4"
    "p_vy ?q = - draws r (cursor r + 3) * 0.6 - 0.1"
    "p_life ?q = 0" "p_maxLife ?q = 200 + draws r (cursor r + 7) * 300"
    by (simp_all add: Particle_reset_eq)
  have c: "0 \<le> p_x ?q \<and> p_x ?q \<le> w \<and> 0 \<le> p_y ?q \<and> p_y ?q \<le> h
        \<and> (0 < w \<longrightarrow> p_x ?q < w) \<and> (0 < h \<longrightarrow> p_y ?q < h)"
    if "unit_draws r" "0 \<le> w" "0 \<le> h"
  proof -
    from that(1) have u: "0 \<le> draws r n" "draws r n < 1" "draws r n \<le> 1" for n
      by (simp_all add: unit_draws_def less_imp_le)
    have "draws r (cursor r) * w \<le> 1 * w"
      by (rule mult_right_mono) (use u(3) that(2) in simp_all)
    moreover have "draws r (cursor r + 1) * h \<le> 1 * h"
      by (rule mult_right_mono) (use u(3) that(3) in simp_all)
    moreover have "0 \<le> draws r (cursor r) * w" "0 \<le> draws r (cursor r + 1) * h"
      using that(2,3) u(1) by simp_all
    moreover have "draws r (cursor r) * w < w" if "0 < w"
      using that u(2) [of "cursor r"] by simp
    moreover have "draws r (cursor r + 1) * h < h" if "0 < h"
      using that u(2) [of "cursor r + 1"] by simp
    ultimately show ?thesis unfolding b by simp
  qed
  have d: "- 0.2 \<le> p_vx ?q \<and> p_vx ?q < 0.2 \<and> - 0.7 < p_vy ?q \<and> p_vy ?q \<le> - 0.1
        \<and> 200 \<le> p_maxLife ?q \<and> p_maxLife ?q < 500"
    if "unit_draws r"
  proof -
    from that have u: "0 \<le> draws r n" "draws r n < 1" for n
      by (simp_all add: unit_draws_def)
    show ?thesis
      unfolding b using u [of "cursor r + 2"] u [of "cursor r + 3"] u [of "cursor r + 7"]
      by simp
  qed
  have e: "length (fst (forEach (Particle_update w h) ps r)) = length ps
        \<and> fst (forEach (Particle_update w h) ps r) ! i
            = fst (Particle_reset w h (snd (forEach (Particle_update w h) (take i ps) r)))
        \<and> p_life (fst (forEach (Particle_update w h) ps r) ! i) = 0"
    if "i < length ps" "real (Suc (p_life (ps ! i))) > p_maxLife (ps ! i)"
  proof -
    have "fst (forEach (Particle_update w h) ps r) ! i
        = fst (Particle_update w h (ps ! i) (snd (forEach (Particle_update w h) (take i ps) r)))"
      by (rule forEach_nth [OF that(1)])
    also have "\<dots> = fst (Particle_reset w h (snd (forEach (Particle_update w h) (take i ps) r)))"
      using that(2) by (simp add: Particle_update_reset)
    finally show ?thesis by (simp add: length_forEach Particle_reset_eq)
  qed
  show ?thesis using a b c d e by blast
qed

theorem particle_respawn_witness:
  "unit_draws sample_rng \<and> real (Suc (p_life old_particle)) > p_maxLife old_particle
   \<and> Particle_update 800 600 old_particle sample_rng = Particle_reset 800 600 sample_rng
   \<and> p_x (fst (Particle_reset 800 600 sample_rng)) = 80
   \<and> p_y (fst (Particle_reset 800 600 sample_rng)) = 120
   \<and> p_y (fst (Particle_reset 800 600 sample_rng)) < 600
   \<and> p_x (fst (Particle_reset 0 0 sample_rng)) = 0
   \<and> p_y (fst (Particle_reset 0 0 sample_rng)) = 0
   \<and> length (fst (forEach (Particle_update 800 600) [young_particle, old_particle] sample_rng)) = 2
   \<and> fst (forEach (Particle_update 800 600) [young_particle, old_particle] sample_rng) ! 1
       = fst (Particle_reset 800 600 (sample_rng\<lparr>cursor := 8\<rparr>))
   \<and> p_life (fst (forEach (Particle_update 800 600) [young_particle, old_particle] sample_rng) ! 1) = 0"
proof -
  have a: "real (Suc (p_life old_particle)) > p_maxLife old_particle"
    by (simp add: old_particle_def)
  let ?ps = "[young_particle, old_particle]"
  have b: "1 < length ?ps" "real (Suc (p_life (?ps ! 1))) > p_maxLife (?ps ! 1)"
    by (simp_all add: old_particle_def)
  have "p_y young_particle + p_vy young_particle < - 10" by (simp add: young_particle_def)
  then have "Particle_update 800 600 young_particle sample_rng = Particle_reset 800 600 sample_rng"
    by (simp add: Particle_update_reset)
  then have c: "snd (forEach (Particle_update 800 600) (take 1 ?ps) sample_rng)
      = sample_rng\<lparr>cursor := 8\<rparr>"
    by (simp add: sample_reset)
  note t1 = particle_respawn [of old_particle 800 600 sample_rng 1 ?ps]
  note t0 = particle_respawn [of old_particle 0 0 sample_rng 1 ?ps]
  have d: "Particle_update 800 600 old_particle sample_rng = Particle_reset 800 600 sample_rng"
    "p_y (fst (Particle_reset 800 600 sample_rng)) < 600"
    using t1 a unit_draws_sample by simp_all
  have e: "p_x (fst (Particle_reset 0 0 sample_rng)) = 0" "p_y (fst (Particle_reset 0 0 sample_rng)) = 0"
    using t0 unit_draws_sample by simp_all
  have f: "length (fst (forEach (Particle_update 800 600) ?ps sample_rng)) = length ?ps
        \<and> fst (forEach (Particle_update 800 600) ?ps sample_rng) ! 1
            = fst (Particle_reset 800 600 (snd (forEach (Particle_update 800 600) (take 1 ?ps) sample_rng)))
        \<and> p_life (fst (forEach (Particle_update 800 600) ?ps sample_rng) ! 1) = 0"
    using t1 b by blast
  from f have g: "length (fst (forEach (Particle_update 800 600) ?ps sample_rng)) = 2"
    "fst (forEach (Particle_update 800 600) ?ps sample_rng) ! 1
       = fst (Particle_reset 800 600 (sample_rng\<lparr>cursor := 8\<rparr>))"
    "p_life (fst (forEach (Particle_update 800 600) ?ps sample_rng) ! 1) = 0"
    unfolding c by (simp_all add: Particle_reset_eq del: forEach.simps)
  have h: "p_x (fst (Particle_reset 800 600 sample_rng)) = 80"
    "p_y (fst (Particle_reset 800 600 sample_rng)) = 120"
    by (simp_all add: sample_reset)
  from a d e g h unit_draws_sample show ?thesis by blast
qed

section \<open>Gold streaks\<close>

lemma GoldLine_reset_eq:
  "GoldLine_reset w h r =
     (\<lparr>g_x = draws r (cursor r) * w,
       g_y = h + 50,
       g_targetX = draws r (cursor r) * w + (draws r (cursor r + 1) - 0.5) * 300,
       g_targetY = - 50,
       g_progress = 0,
       g_speed = 0.002 + draws r (cursor r + 2) * 0.003,
       g_alpha = draws r (cursor r + 3) * 0.35 + 0.08,
       g_width = draws r (cursor r + 4) * 1.5 + 0.3,
       g_color = (if draws r (cursor r + 5) > 0.5 then GOLD else LGOLD),
       g_trail = []\<rparr>, r\<lparr>cursor := cursor r + 6\<rparr>)"
  by (simp add: GoldLine_reset_def Math_random_def Let_def eval_nat_numeral)

lemma GoldLine_init_trail: "g_trail (fst (GoldLine_init w h r)) = []"
  by (simp add: GoldLine_init_def GoldLine_reset_eq Math_random_def Let_def)

lemma GoldLine_update_reset:
  "g_progress g + g_speed g \<ge> 1 \<Longrightarrow> GoldLine_update w h g r = GoldLine_reset w h r"
  by (simp add: GoldLine_update_def Let_def)

lemma GoldLine_update_trail:
  "g_progress g + g_speed g < 1 \<Longrightarrow>
   g_trail (fst (GoldLine_update w h g r)) =
     (if length (g_trail g) \<ge> 60
      then tl (g_trail g @ [(g_x g + (g_targetX g - g_x g) * (g_progress g + g_speed g),
                           g_y g + (g_targetY g - g_y g) * (g_progress g + g_speed g))])
      else g_trail g @ [(g_x g + (g_targetX g - g_x g) * (g_progress g + g_speed g),
                        g_y g + (g_targetY g - g_y g) * (g_progress g + g_speed g))])"
  by (simp add: GoldLine_update_def Let_def)

lemma GoldLine_update_cap:
  "length (g_trail g) \<le> 60 \<Longrightarrow> length (g_trail (fst (GoldLine_update w h g r))) \<le> 60"
proof (cases "g_progress g + g_speed g \<ge> 1")
  case True
  then show ?thesis by (simp add: GoldLine_update_reset GoldLine_reset_eq)
next
  case False
  then have "g_progress g + g_speed g < 1" by simp
  from GoldLine_update_trail [OF this] show "length (g_trail g) \<le> 60 \<Longrightarrow> ?thesis"
    by (simp split: if_splits)
qed

lemma GoldLine_updates_cap:
  "length (g_trail (fst gr)) \<le> 60 \<Longrightarrow> length (g_trail (fst (GoldLine_updates whs gr))) \<le> 60"
  by (induction whs arbitrary: gr) (simp_all add: GoldLine_update_cap)

text \<open>
  Claim C6. A streak of the pool starts with an empty trail, and after any sequence of
  \<open>update\<close> calls, whatever the surface size at each call, its trail has at most 60
  points. In a call that does not end the streak's path (the new progress is below 1)
  the new point is appended, and the oldest point is removed exactly when the trail
  already holds 60 points, that is when the appended point makes it 61: the trail is then
  the old one without its first point, followed by the new point. When the path ends
  (progress reaches 1) the streak is reinitialised with an empty trail.
\<close>

theorem trail_capped:
  "length (g_trail (fst (GoldLine_updates whs (GoldLine_init w h r)))) \<le> 60
   \<and> (length (g_trail g) \<le> 60 \<longrightarrow> length (g_trail (fst (GoldLine_update w h g r))) \<le> 60)
   \<and> (g_progress g + g_speed g < 1 \<and> length (g_trail g) + 1 > 60 \<and> length (g_trail g) \<le> 60 \<longrightarrow>
        g_trail (fst (GoldLine_update w h g r))
          = tl (g_trail g) @ [(g_x g + (g_targetX g - g_x g) * (g_progress g + g_speed g),
                               g_y g + (g_targetY g - g_y g) * (g_progress g + g_speed g))]
        \<and> length (g_trail (fst (GoldLine_update w h g r))) = 60)
   \<and> (g_progress g + g_speed g < 1 \<and> \<not> length (g_trail g) + 1 > 60 \<longrightarrow>
        g_trail (fst (GoldLine_update w h g r))
          = g_trail g @ [(g_x g + (g_targetX g - g_x g) * (g_progress g + g_speed g),
                          g_y g + (g_targetY g - g_y g) * (g_progress g + g_speed g))])
   \<and> (g_progress g + g_speed g \<ge> 1 \<longrightarrow> g_trail (fst (GoldLine_update w h g r)) = [])"
proof -
  have a: "length (g_trail (fst (GoldLine_updates whs (GoldLine_init w h r)))) \<le> 60"
    by (rule GoldLine_updates_cap) (simp add: GoldLine_init_trail)
  have b: "g_trail (fst (GoldLine_update w h g r))
          = tl (g_trail g) @ [(g_x g + (g_targetX g - g_x g) * (g_progress g + g_speed g),
                               g_y g + (g_targetY g - g_y g) * (g_progress g + g_speed g))]
        \<and> length (g_trail (fst (GoldLine_update w h g r))) = 60"
    if "g_progress g + g_speed g < 1" "length (g_trail g) + 1 > 60" "length (g_trail g) \<le> 60"
  proof -
    from that have l: "length (g_trail g) = 60" by simp
    then have "g_trail g \<noteq> []" by auto
    then show ?thesis using GoldLine_update_trail [OF that(1), of w h r] l by simp
  qed
  have c: "g_trail (fst (GoldLine_update w h g r))
          = g_trail g @ [(g_x g + (g_targetX g - g_x g) * (g_progress g + g_speed g),
                          g_y g + (g_targetY g - g_y g) * (g_progress g + g_speed g))]"
    if "g_progress g + g_speed g < 1" "\<not> length (g_trail g) + 1 > 60"
    using GoldLine_update_trail [OF that(1), of w h r] that(2) by simp
  have d: "g_trail (fst (GoldLine_update w h g r)) = []" if "g_progress g + g_speed g \<ge> 1"
    using that by (simp add: GoldLine_update_reset GoldLine_reset_eq)
  show ?thesis using a b c d GoldLine_update_cap [of g w h r] by blast
qed

theorem trail_capped_witness:
  "length (g_trail full_streak) = 60
   \<and> g_trail (fst (GoldLine_update 800 600 full_streak sample_rng))
       = tl (g_trail full_streak) @ [(150.4, 297.2)]
   \<and> length (g_trail (fst (GoldLine_update 800 600 full_streak sample_rng))) = 60
   \<and> g_trail (fst (GoldLine_update 800 600 (fst (GoldLine_init 800 600 sample_rng)) sample_rng))
       = [(16.739, 157.97)]
   \<and> g_trail (fst (GoldLine_update 800 600 (full_streak\<lparr>g_progress := 0.997\<rparr>) sample_rng)) = []"
proof -
  have l: "length (g_trail full_streak) = 60" by (simp add: full_streak_def)
  have p: "g_progress full_streak + g_speed full_streak < 1" by (simp add: full_streak_def)
  have pt: "g_x full_streak + (g_targetX full_streak - g_x full_streak) * (g_progress full_streak + g_speed full_streak) = 150.4"
    "g_y full_streak + (g_targetY full_streak - g_y full_streak) * (g_progress full_streak + g_speed full_streak) = 297.2"
    by (simp_all add: full_streak_def)
  let ?g = "fst (GoldLine_init 800 600 sample_rng)"
  have i: "?g = \<lparr>g_x = 80, g_y = 650, g_targetX = - 10, g_targetY = - 50, g_progress = 0.7,
      g_speed = 0.0029, g_alpha = 0.22, g_width = 1.05, g_color = GOLD, g_trail = []\<rparr>"
    by (simp add: GoldLine_init_def GoldLine_reset_eq Math_random_def Let_def sample_rng_def)
  let ?e = "full_streak\<lparr>g_progress := 0.997\<rparr>"
  have e: "g_progress ?e + g_speed ?e \<ge> 1" by (simp add: full_streak_def)
  show ?thesis
    using trail_capped [of "[]" 800 600 sample_rng full_streak] l p pt
      trail_capped [of "[]" 800 600 sample_rng ?g] i
      trail_capped [of "[]" 800 600 sample_rng ?e] e
    by simp
qed

section \<open>The skyline\<close>

lemma pi_ge_three: "3 \<le> pi"
  using sin_x_le_x [of "pi / 6"] by (simp add: sin_30)

lemma lit_examples: "lit 0.10 0 0" "\<not> lit 0.45 0 0"
proof -
  have "pi / 6 < (1::real)" using pi_less_4 by simp
  moreover have "(1::real) \<le> pi / 2" using pi_ge_two by simp
  ultimately have "sin (pi / 6) < sin (1::real)"
    using sin_mono_less_eq [of "pi / 6" 1] by simp
  then have "sin (1::real) > 0.1" by (simp add: sin_30)
  then show "lit 0.10 0 0" by (simp add: lit_def)
  have "pi < 4.5" using pi_less_4 by simp
  moreover have "(4.5::real) < 2 * pi" using pi_ge_three by simp
  ultimately have "sin (4.5::real) < 0" by (rule sin_lt_zero)
  then show "\<not> lit 0.45 0 0" by (simp add: lit_def)
qed

lemma building_windows_iff:
  "\<lparr>win_building = i, win_row = row, win_col = col, win_rect = rect\<rparr>
      \<in> set (building_windows w h (k, b))
   \<longleftrightarrow> i = k \<and> row < floors b \<and> col < wCols w b \<and> lit (b_x b) row col
       \<and> rect = (b_x b * w + real col * (b_w b * w / real (wCols w b))
                   + (b_w b * w / real (wCols w b) - b_w b * w / real (wCols w b) * 0.5) * 0.5,
                 h - b_h b * h * 0.6 + real row * (b_h b * h * 0.6 / real (floors b))
                   + (b_h b * h * 0.6 / real (floors b) - b_h b * h * 0.6 / real (floors b) * 0.35) * 0.5 + 4,
                 b_w b * w / real (wCols w b) * 0.5,
                 b_h b * h * 0.6 / real (floors b) * 0.35)"
  by (auto simp: building_windows_def Let_def)

lemma sky_windows_iff:
  "(\<exists>rect. \<lparr>win_building = i, win_row = row, win_col = col, win_rect = rect\<rparr>
        \<in> set (sky_windows (drawSkyline alpha t w h)))
   \<longleftrightarrow> i < length buildings \<and> row < floors (buildings ! i) \<and> col < wCols w (buildings ! i)
       \<and> lit (b_x (buildings ! i)) row col"
  (is "?L \<longleftrightarrow> ?R")
proof
  assume ?L
  then obtain rect kb where
    kb: "kb \<in> set (enumerate 0 buildings)"
    and m: "\<lparr>win_building = i, win_row = row, win_col = col, win_rect = rect\<rparr>
             \<in> set (building_windows w h kb)"
    by (auto simp: drawSkyline_def)
  obtain k b where e: "kb = (k, b)" by (cases kb)
  from kb e have "k < length buildings" "b = buildings ! k"
    by (simp_all add: in_set_enumerate_eq)
  with m e show ?R by (simp add: building_windows_iff)
next
  assume r: ?R
  let ?b = "buildings ! i"
  from r have "(i, ?b) \<in> set (enumerate 0 buildings)" by (simp add: in_set_enumerate_eq)
  moreover from r have "\<exists>rect. \<lparr>win_building = i, win_row = row, win_col = col, win_rect = rect\<rparr>
             \<in> set (building_windows w h (i, ?b))"
    by (simp add: building_windows_iff)
  ultimately show ?L unfolding drawSkyline_def by (simp del: enumerate_eq_zip) blast
qed

text \<open>
  Claim C8. \<open>drawSkyline\<close> calls no random number generator, and the windows it fills
  do not depend on its arguments \<open>alpha\<close> and \<open>t\<close>: two calls on the same surface fill the
  same windows. Window \<open>(row, col)\<close> of building \<open>i\<close> is filled exactly when it exists
  (the row is below the number of floors, the column below the number of columns that
  fit) and \<open>sin (3.7 row + 2.1 col + 10 x\<^sub>i) > 0.1\<close>, a test on the building's position, the
  row and the column alone, which is the same every time it is evaluated. The pattern is
  not constant: on every surface the first window of building 1 is lit and the first
  window of building 8 is not.
\<close>

theorem lit_windows_deterministic:
  "sky_windows (drawSkyline alpha t w h) = sky_windows (drawSkyline alpha' t' w h)
   \<and> ((\<exists>rect. \<lparr>win_building = i, win_row = row, win_col = col, win_rect = rect\<rparr>
            \<in> set (sky_windows (drawSkyline alpha t w h)))
        \<longleftrightarrow> i < length buildings \<and> row < floors (buildings ! i)
            \<and> col < wCols w (buildings ! i) \<and> lit (b_x (buildings ! i)) row col)
   \<and> lit bx row col = (sin (real row * 3.7 + real col * 2.1 + bx * 10) > 0.1)
   \<and> length buildings = 18
   \<and> (\<exists>rect. \<lparr>win_building = 1, win_row = 0, win_col = 0, win_rect = rect\<rparr>
            \<in> set (sky_windows (drawSkyline alpha t w h)))
   \<and> \<not> (\<exists>rect. \<lparr>win_building = 8, win_row = 0, win_col = 0, win_rect = rect\<rparr>
            \<in> set (sky_windows (drawSkyline alpha t w h)))"
proof -
  have c: "0 < wCols w b" for b by (simp add: wCols_def)
  have b1: "buildings ! Suc 0 = \<lparr>b_x = 0.10, b_w = 0.04, b_h = 0.35, floors = 9\<rparr>"
    and b8: "buildings ! 8 = \<lparr>b_x = 0.45, b_w = 0.10, b_h = 0.80, floors = 22\<rparr>"
    and l: "length buildings = 18"
    by (simp_all add: buildings_def)
  have "\<exists>rect. \<lparr>win_building = 1, win_row = 0, win_col = 0, win_rect = rect\<rparr>
            \<in> set (sky_windows (drawSkyline alpha t w h))"
    unfolding sky_windows_iff using lit_examples(1) c by (simp add: b1 l)
  moreover have "\<not> (\<exists>rect. \<lparr>win_building = 8, win_row = 0, win_col = 0, win_rect = rect\<rparr>
            \<in> set (sky_windows (drawSkyline alpha t w h)))"
    unfolding sky_windows_iff using lit_examples(2) by (simp add: b8)
  moreover have "sky_windows (drawSkyline alpha t w h) = sky_windows (drawSkyline alpha' t' w h)"
    by (simp add: drawSkyline_def)
  ultimately show ?thesis
    using sky_windows_iff [of i row col alpha t w h] l by (simp add: lit_def)
qed

section \<open>The network\<close>

lemma node_edges_mem:
  "e \<in> set (node_edges alpha w nodes kn) \<longleftrightarrow>
     (\<exists>m \<in> set nodes. \<not> fst m \<le> fst kn
        \<and> hypot (fst (snd kn) - fst (snd m)) (snd (snd kn) - snd (snd m)) < w * 0.35
        \<and> e = \<lparr>e_i = fst kn, e_j = fst m,
                 e_globalAlpha = edge_alpha alpha w
                   (hypot (fst (snd kn) - fst (snd m)) (snd (snd kn) - snd (snd m))),
                 e_from = snd kn, e_to = snd m\<rparr>)"
proof -
  have "set (if c then [] else (if d then [x] else [])) = (if \<not> c \<and> d then {x} else {})"
    for c d and x :: edge
    by simp
  then show ?thesis
    unfolding node_edges_def Let_def set_concat set_map by (simp only: UN_iff image_iff bex_simps) auto
qed

lemma node_edges_iff:
  "\<lparr>e_i = i, e_j = j, e_globalAlpha = a, e_from = p, e_to = q\<rparr>
      \<in> set (node_edges alpha w nodes (k, n))
   \<longleftrightarrow> i = k \<and> p = n \<and> (j, q) \<in> set nodes \<and> i < j
       \<and> hypot (fst p - fst q) (snd p - snd q) < w * 0.35
       \<and> a = edge_alpha alpha w (hypot (fst p - fst q) (snd p - snd q))"
  (is "?L \<longleftrightarrow> ?R")
proof
  assume ?L
  then obtain m where m: "m \<in> set nodes" "\<not> fst m \<le> k"
    "hypot (fst n - fst (snd m)) (snd n - snd (snd m)) < w * 0.35"
    "i = k" "j = fst m" "p = n" "q = snd m"
    "a = edge_alpha alpha w (hypot (fst n - fst (snd m)) (snd n - snd (snd m)))"
    unfolding node_edges_mem by auto
  from m(1,5,7) have "(j, q) \<in> set nodes" by simp
  with m show ?R by simp
next
  assume r: ?R
  then have "(j, q) \<in> set nodes" "\<not> fst (j, q) \<le> fst (k, n)"
    "hypot (fst (snd (k, n)) - fst (snd (j, q))) (snd (snd (k, n)) - snd (snd (j, q))) < w * 0.35"
    "\<lparr>e_i = i, e_j = j, e_globalAlpha = a, e_from = p, e_to = q\<rparr>
       = \<lparr>e_i = fst (k, n), e_j = fst (j, q),
          e_globalAlpha = edge_alpha alpha w
            (hypot (fst (snd (k, n)) - fst (snd (j, q))) (snd (snd (k, n)) - snd (snd (j, q)))),
          e_from = snd (k, n), e_to = snd (j, q)\<rparr>"
    by auto
  then show ?L unfolding node_edges_mem by blast
qed


lemma drawNetwork_iff:
  "\<lparr>e_i = i, e_j = j, e_globalAlpha = a, e_from = p, e_to = q\<rparr>
      \<in> set (drawNetwork alpha t w h)
   \<longleftrightarrow> i < j \<and> j < 12 \<and> p = network_nodes t w h ! i \<and> q = network_nodes t w h ! j
       \<and> hypot (fst p - fst q) (snd p - snd q) < w * 0.35
       \<and> a = edge_alpha alpha w (hypot (fst p - fst q) (snd p - snd q))"
  (is "?L \<longleftrightarrow> ?R")
proof -
  let ?ns = "enumerate 0 (network_nodes t w h)"
  let ?e = "\<lparr>e_i = i, e_j = j, e_globalAlpha = a, e_from = p, e_to = q\<rparr>"
  have len: "length (network_nodes t w h) = 12" by (simp add: network_nodes_def)
  have "?L \<longleftrightarrow> (\<exists>kn \<in> set ?ns. ?e \<in> set (node_edges alpha w ?ns kn))"
    by (simp add: drawNetwork_def Let_def)
  also have "\<dots> \<longleftrightarrow> (\<exists>k n. (k, n) \<in> set ?ns \<and> ?e \<in> set (node_edges alpha w ?ns (k, n)))"
    by auto
  also have "\<dots> \<longleftrightarrow> ((i, p) \<in> set ?ns \<and> (j, q) \<in> set ?ns \<and> i < j
       \<and> hypot (fst p - fst q) (snd p - snd q) < w * 0.35
       \<and> a = edge_alpha alpha w (hypot (fst p - fst q) (snd p - snd q)))"
    (is "?A \<longleftrightarrow> ?B")
  proof
    assume ?A
    then obtain k n where "(k, n) \<in> set ?ns" "?e \<in> set (node_edges alpha w ?ns (k, n))"
      by blast
    then show ?B using node_edges_iff [of i j a p q alpha w ?ns k n] by blast
  next
    assume b: ?B
    then have "?e \<in> set (node_edges alpha w ?ns (i, p))"
      using node_edges_iff [of i j a p q alpha w ?ns i p] by blast
    with b show ?A by blast
  qed
  also have "\<dots> \<longleftrightarrow> ?R"
    by (auto simp: in_set_enumerate_eq len)
  finally show ?thesis .
qed

lemma edge_alpha_mono:
  "0 < alpha \<Longrightarrow> 0 < w \<Longrightarrow> d1 < d2 \<Longrightarrow> edge_alpha alpha w d2 < edge_alpha alpha w d1"
  by (simp add: edge_alpha_def divide_strict_right_mono)

lemma edge_alpha_limit:
  "w \<noteq> 0 \<Longrightarrow> (\<lambda>d. edge_alpha alpha w d) \<midarrow>w * 0.35\<rightarrow> 0"
proof -
  assume w: "w \<noteq> 0"
  have "(\<lambda>d. alpha * 0.15 * (1 - d / (w * 0.35))) \<midarrow>w * 0.35\<rightarrow> alpha * 0.15 * (1 - (w * 0.35) / (w * 0.35))"
    by (intro tendsto_intros) (use w in simp)
  then show ?thesis using w by (simp add: edge_alpha_def)
qed

text \<open>
  Claim C7. \<open>drawNetwork\<close> strokes one edge for a pair of nodes \<open>i < j\<close> of its twelve
  nodes exactly when their Euclidean distance \<open>d\<close> is strictly below \<open>0.35 W\<close>, and no other
  edge. The edge is stroked with \<open>globalAlpha = alpha * 0.15 * (1 - d / (0.35 W))\<close>, a
  multiple of \<open>1 - d / (0.35 W)\<close>. For a positive \<open>alpha\<close> (the first scene passes 0.45) and a
  positive width this is strictly decreasing in \<open>d\<close>; it is 0 at the threshold and tends
  to 0 as \<open>d\<close> tends to the threshold.
\<close>

theorem network_edges:
  "(\<lparr>e_i = i, e_j = j, e_globalAlpha = a, e_from = p, e_to = q\<rparr>
        \<in> set (drawNetwork alpha t w h)
      \<longleftrightarrow> i < j \<and> j < 12 \<and> p = network_nodes t w h ! i \<and> q = network_nodes t w h ! j
          \<and> hypot (fst p - fst q) (snd p - snd q) < w * 0.35
          \<and> a = alpha * 0.15 * (1 - hypot (fst p - fst q) (snd p - snd q) / (w * 0.35)))
   \<and> ((\<exists>a p q. \<lparr>e_i = i, e_j = j, e_globalAlpha = a, e_from = p, e_to = q\<rparr>
            \<in> set (drawNetwork alpha t w h))
        \<longleftrightarrow> i < j \<and> j < 12
            \<and> hypot (fst (network_nodes t w h ! i) - fst (network_nodes t w h ! j))
                     (snd (network_nodes t w h ! i) - snd (network_nodes t w h ! j)) < w * 0.35)
   \<and> hypot x y = sqrt (x\<^sup>2 + y\<^sup>2)
   \<and> edge_alpha alpha w d = alpha * 0.15 * (1 - d / (w * 0.35))
   \<and> (0 < alpha \<and> 0 < w \<and> d1 < d2 \<longrightarrow> edge_alpha alpha w d2 < edge_alpha alpha w d1)
   \<and> (w \<noteq> 0 \<longrightarrow> edge_alpha alpha w (w * 0.35) = 0
                   \<and> (\<lambda>d. edge_alpha alpha w d) \<midarrow>w * 0.35\<rightarrow> 0)"
proof -
  have a: "\<lparr>e_i = i, e_j = j, e_globalAlpha = a, e_from = p, e_to = q\<rparr>
        \<in> set (drawNetwork alpha t w h)
      \<longleftrightarrow> i < j \<and> j < 12 \<and> p = network_nodes t w h ! i \<and> q = network_nodes t w h ! j
          \<and> hypot (fst p - fst q) (snd p - snd q) < w * 0.35
          \<and> a = alpha * 0.15 * (1 - hypot (fst p - fst q) (snd p - snd q) / (w * 0.35))"
    unfolding drawNetwork_iff edge_alpha_def ..
  have b: "(\<exists>a p q. \<lparr>e_i = i, e_j = j, e_globalAlpha = a, e_from = p, e_to = q\<rparr>
            \<in> set (drawNetwork alpha t w h))
        \<longleftrightarrow> i < j \<and> j < 12
            \<and> hypot (fst (network_nodes t w h ! i) - fst (network_nodes t w h ! j))
                     (snd (network_nodes t w h ! i) - snd (network_nodes t w h ! j)) < w * 0.35"
    unfolding drawNetwork_iff by blast
  have c: "edge_alpha alpha w (w * 0.35) = 0" if "w \<noteq> 0"
    using that by (simp add: edge_alpha_def)
  show ?thesis
    using a b c edge_alpha_mono [of alpha w d1 d2] edge_alpha_limit [of w alpha]
    by (simp add: hypot_def edge_alpha_def)
qed

lemma sample_nodes:
  "network_nodes 0 800 600 ! 0 = (120, 138)"
  "network_nodes 0 800 600 ! 1 = ((0.15 + 0.7 / 3 + sin 1 * 0.03) * 800, (0.2 + cos 1 * 0.03) * 600)"
  "network_nodes 0 800 600 ! 3 = ((0.85 + sin 3 * 0.03) * 800, (0.2 + cos 3 * 0.03) * 600)"
  by (simp_all add: network_nodes_def)

lemma sample_near:
  "hypot (fst (network_nodes 0 800 600 ! 0) - fst (network_nodes 0 800 600 ! 1))
         (snd (network_nodes 0 800 600 ! 0) - snd (network_nodes 0 800 600 ! 1)) < 800 * 0.35"
proof -
  let ?dx = "120 - (0.15 + 0.7 / 3 + sin (1::real) * 0.03) * 800"
  let ?dy = "138 - (0.2 + cos (1::real) * 0.03) * 600"
  have ex: "?dx = - (560 / 3) - 24 * sin 1" by (simp add: algebra_simps)
  have "\<bar>?dx\<bar> \<le> 211"
    unfolding ex using sin_le_one [of "1::real"] sin_ge_minus_one [of "1::real"] by linarith
  then have "\<bar>?dx\<bar>\<^sup>2 \<le> 211\<^sup>2" by (rule power_mono) simp
  then have x: "?dx\<^sup>2 \<le> 44521" by simp
  have ey: "?dy = 18 - 18 * cos 1" by (simp add: algebra_simps)
  have "\<bar>?dy\<bar> \<le> 36"
    unfolding ey using cos_le_one [of "1::real"] cos_ge_minus_one [of "1::real"] by linarith
  then have "\<bar>?dy\<bar>\<^sup>2 \<le> 36\<^sup>2" by (rule power_mono) simp
  then have y: "?dy\<^sup>2 \<le> 1296" by simp
  have "?dx\<^sup>2 + ?dy\<^sup>2 < 280\<^sup>2" using x y by simp
  then have "sqrt (?dx\<^sup>2 + ?dy\<^sup>2) < 280" by (intro real_less_lsqrt) simp_all
  then show ?thesis unfolding sample_nodes hypot_def fst_conv snd_conv by simp
qed

lemma sample_far:
  "\<not> hypot (fst (network_nodes 0 800 600 ! 0) - fst (network_nodes 0 800 600 ! 3))
         (snd (network_nodes 0 800 600 ! 0) - snd (network_nodes 0 800 600 ! 3)) < 800 * 0.35"
proof -
  let ?dx = "120 - (0.85 + sin (3::real) * 0.03) * 800"
  let ?dy = "138 - (0.2 + cos (3::real) * 0.03) * 600"
  have ex: "- ?dx = 560 + 24 * sin 3" by (simp add: algebra_simps)
  have "536 \<le> - ?dx" unfolding ex using sin_ge_minus_one [of "3::real"] by linarith
  also have "- ?dx \<le> sqrt ((- ?dx)\<^sup>2 + ?dy\<^sup>2)" by (rule real_sqrt_sum_squares_ge1)
  also have "\<dots> = sqrt (?dx\<^sup>2 + ?dy\<^sup>2)" by (simp only: power2_minus)
  finally have "\<not> sqrt (?dx\<^sup>2 + ?dy\<^sup>2) < 280" by simp
  then show ?thesis unfolding sample_nodes hypot_def fst_conv snd_conv by simp
qed

theorem network_edges_witness:
  "(\<exists>a p q. \<lparr>e_i = 0, e_j = 1, e_globalAlpha = a, e_from = p, e_to = q\<rparr>
        \<in> set (drawNetwork 0.45 0 800 600))
   \<and> \<not> (\<exists>a p q. \<lparr>e_i = 0, e_j = 3, e_globalAlpha = a, e_from = p, e_to = q\<rparr>
        \<in> set (drawNetwork 0.45 0 800 600))
   \<and> edge_alpha 0.45 800 200 < edge_alpha 0.45 800 100
   \<and> edge_alpha 0.45 800 100 = 243 / 5600
   \<and> edge_alpha 0.45 800 (800 * 0.35) = 0"
proof -
  note n1 = network_edges [where i = 0 and j = 1 and alpha = "0.45" and t = 0 and w = 800
        and h = 600 and d = 100 and ?d1.0 = 100 and ?d2.0 = 200]
  note n3 = network_edges [where i = 0 and j = 3 and alpha = "0.45" and t = 0 and w = 800
        and h = 600 and d = 100 and ?d1.0 = 100 and ?d2.0 = 200]
  have a: "\<exists>a p q. \<lparr>e_i = 0, e_j = 1, e_globalAlpha = a, e_from = p, e_to = q\<rparr>
        \<in> set (drawNetwork 0.45 0 800 600)"
    by (rule iffD2 [OF n1 [THEN conjunct2, THEN conjunct1]]) (use sample_near in simp)
  have b: "\<not> (\<exists>a p q. \<lparr>e_i = 0, e_j = 3, e_globalAlpha = a, e_from = p, e_to = q\<rparr>
        \<in> set (drawNetwork 0.45 0 800 600))"
    using iffD1 [OF n3 [THEN conjunct2, THEN conjunct1]] sample_far by blast
  have c: "edge_alpha 0.45 800 200 < edge_alpha 0.45 800 100
     \<and> edge_alpha 0.45 800 100 = 243 / 5600 \<and> edge_alpha 0.45 800 (800 * 0.35) = 0"
    using n1 [THEN conjunct2, THEN conjunct2, THEN conjunct2] by simp
  from a b c show ?thesis by blast
qed

end
